theory Spec2Isabelle
  imports Main
begin

section \<open>The document edit engine\<close>

text \<open>
  Modelled from the spec: the backend classes Page, Command, CommandHistory and Document
  are used by \<^verbatim>\<open>appwindow.cpp\<close> but their sources are not part of the
  files at hand. The definitions of this section follow sections 3 and 4.1 to 4.4 of the
  specification.
\<close>

subsection \<open>Page\<close>

text \<open>
  Modelled from the spec: a page rotation is one of 0, 90, 180 and 270 degrees, and
  \<^verbatim>\<open>rotate(direction)\<close> adds plus or minus 90 degrees modulo 360.
\<close>

datatype rotation = Deg0 | Deg90 | Deg180 | Deg270

datatype direction = Right | Left

fun add90 :: "rotation \<Rightarrow> rotation" where
  "add90 Deg0 = Deg90"
| "add90 Deg90 = Deg180"
| "add90 Deg180 = Deg270"
| "add90 Deg270 = Deg0"

fun sub90 :: "rotation \<Rightarrow> rotation" where
  "sub90 Deg0 = Deg270"
| "sub90 Deg90 = Deg0"
| "sub90 Deg180 = Deg90"
| "sub90 Deg270 = Deg180"

text \<open>
  Modelled from the spec: a Page is identified by its index into the source document and
  carries a rotation and a removed flag; only the last two mutate.
\<close>

record page =
  source_index :: nat
  rotation :: rotation
  removed :: bool

fun rotate :: "direction \<Rightarrow> page \<Rightarrow> page" where
  "rotate Right p = p\<lparr>rotation := add90 (rotation p)\<rparr>"
| "rotate Left p = p\<lparr>rotation := sub90 (rotation p)\<rparr>"

definition markRemoved :: "page \<Rightarrow> page" where
  "markRemoved p = p\<lparr>removed := True\<rparr>"

definition markRestored :: "page \<Rightarrow> page" where
  "markRestored p = p\<lparr>removed := False\<rparr>"

subsection \<open>Command\<close>

text \<open>
  Modelled from the spec: a Command records its kind, its target indices (positions in
  the visible sequence at construction time) and, for a removal, the removed Page entries
  with their original absolute positions. A range command carries its inclusive bounds.
\<close>

datatype command =
    RemovePages "nat list" "(nat \<times> page) list"
  | RemovePageRange int int "(nat \<times> page) list"
  | RotatePagesRight "nat list"
  | RotatePagesLeft "nat list"

text \<open>
  Modelled from the spec: the positions of the inclusive range \<open>[start, end]\<close>; the
  range is empty when \<open>end < start\<close>. Positions are never negative.
\<close>

definition range_indices :: "int \<Rightarrow> int \<Rightarrow> nat list" where
  "range_indices start end = map nat [max 0 start..end]"

text \<open>
  Modelled from the spec: the entries a removal takes out, each with its absolute
  position, lowest position first; and the survivors, in their relative order. A target
  index that is no position of the sequence selects no page.
\<close>

definition removed_entries :: "nat list \<Rightarrow> page list \<Rightarrow> (nat \<times> page) list" where
  "removed_entries idxs ps = filter (\<lambda>(i, p). i \<in> set idxs) (enumerate 0 ps)"

definition survivors :: "nat list \<Rightarrow> page list \<Rightarrow> page list" where
  "survivors idxs ps = map snd (filter (\<lambda>(i, p). i \<notin> set idxs) (enumerate 0 ps))"

text \<open>
  Modelled from the spec: reversal reinserts each removed page at its original absolute
  position, from the lowest position to the highest.
\<close>

definition insert_at :: "nat \<times> page \<Rightarrow> page list \<Rightarrow> page list" where
  "insert_at e ps = take (fst e) ps @ snd e # drop (fst e) ps"

definition reinsert :: "(nat \<times> page) list \<Rightarrow> page list \<Rightarrow> page list" where
  "reinsert ents ps = foldl (\<lambda>xs e. insert_at e xs) ps ents"

text \<open>
  Modelled from the spec: a rotation command turns each targeted page by 90 degrees.
\<close>

definition rotate_indices :: "direction \<Rightarrow> nat list \<Rightarrow> page list \<Rightarrow> page list" where
  "rotate_indices dir idxs ps =
     map (\<lambda>(i, p). if i \<in> set idxs then rotate dir p else p) (enumerate 0 ps)"

text \<open>
  Modelled from the spec: \<^verbatim>\<open>apply()\<close> and \<^verbatim>\<open>reverse()\<close> of the four
  command variants, as functions on the page sequence of the Document.
\<close>

fun apply_command :: "command \<Rightarrow> page list \<Rightarrow> page list" where
  "apply_command (RemovePages idxs ents) ps = survivors idxs ps"
| "apply_command (RemovePageRange start end ents) ps = survivors (range_indices start end) ps"
| "apply_command (RotatePagesRight idxs) ps = rotate_indices Right idxs ps"
| "apply_command (RotatePagesLeft idxs) ps = rotate_indices Left idxs ps"

fun reverse_command :: "command \<Rightarrow> page list \<Rightarrow> page list" where
  "reverse_command (RemovePages idxs ents) ps = reinsert ents ps"
| "reverse_command (RemovePageRange start end ents) ps = reinsert ents ps"
| "reverse_command (RotatePagesRight idxs) ps = rotate_indices Left idxs ps"
| "reverse_command (RotatePagesLeft idxs) ps = rotate_indices Right idxs ps"

subsection \<open>CommandHistory\<close>

text \<open>
  Modelled from the spec: the applied and the undone stack (top of stack first), and
  \<^verbatim>\<open>execute\<close>, \<^verbatim>\<open>undo\<close>, \<^verbatim>\<open>redo\<close>,
  \<^verbatim>\<open>canUndo\<close>, \<^verbatim>\<open>canRedo\<close>. The history acts on the page
  sequence of the Document that owns it.
\<close>

record command_history =
  applied :: "command list"
  undone :: "command list"

datatype document_error = OpenError | NoHistoryError

definition empty_history :: command_history where
  "empty_history = \<lparr>applied = [], undone = []\<rparr>"

definition canUndo_history :: "command_history \<Rightarrow> bool" where
  "canUndo_history h = (applied h \<noteq> [])"

definition canRedo_history :: "command_history \<Rightarrow> bool" where
  "canRedo_history h = (undone h \<noteq> [])"

definition execute :: "command \<Rightarrow> command_history \<times> page list \<Rightarrow> command_history \<times> page list" where
  "execute c hp = (case hp of (h, ps) \<Rightarrow>
     (\<lparr>applied = c # applied h, undone = []\<rparr>, apply_command c ps))"

definition undo :: "command_history \<times> page list \<Rightarrow> document_error + command_history \<times> page list" where
  "undo hp = (case hp of (h, ps) \<Rightarrow>
     (case applied h of
        [] \<Rightarrow> Inl NoHistoryError
      | c # cs \<Rightarrow> Inr (\<lparr>applied = cs, undone = c # undone h\<rparr>, reverse_command c ps)))"

definition redo :: "command_history \<times> page list \<Rightarrow> document_error + command_history \<times> page list" where
  "redo hp = (case hp of (h, ps) \<Rightarrow>
     (case undone h of
        [] \<Rightarrow> Inl NoHistoryError
      | c # cs \<Rightarrow> Inr (\<lparr>applied = c # applied h, undone = cs\<rparr>, apply_command c ps)))"

subsection \<open>Document\<close>

text \<open>
  Modelled from the spec: a Document owns the ordered page sequence and one
  CommandHistory. A freshly opened Document has an empty history. Each edit operation
  constructs its Command against the current sequence and executes it; an empty target
  set is a silent no-op that leaves no history entry.
\<close>

record document =
  pages :: "page list"
  history :: command_history

definition new_document :: "page list \<Rightarrow> document" where
  "new_document ps = \<lparr>pages = ps, history = empty_history\<rparr>"

definition canUndo :: "document \<Rightarrow> bool" where
  "canUndo d = canUndo_history (history d)"

definition canRedo :: "document \<Rightarrow> bool" where
  "canRedo d = canRedo_history (history d)"

definition execute_on :: "command \<Rightarrow> document \<Rightarrow> document" where
  "execute_on c d = (case execute c (history d, pages d) of (h, ps) \<Rightarrow> \<lparr>pages = ps, history = h\<rparr>)"

definition removePages :: "nat list \<Rightarrow> document \<Rightarrow> document" where
  "removePages idxs d =
     (if idxs = [] then d
      else execute_on (RemovePages idxs (removed_entries idxs (pages d))) d)"

definition removePageRange :: "int \<Rightarrow> int \<Rightarrow> document \<Rightarrow> document" where
  "removePageRange start end d =
     (if range_indices start end = [] then d
      else execute_on
             (RemovePageRange start end (removed_entries (range_indices start end) (pages d))) d)"

definition rotatePagesRight :: "nat list \<Rightarrow> document \<Rightarrow> document" where
  "rotatePagesRight idxs d = (if idxs = [] then d else execute_on (RotatePagesRight idxs) d)"

definition rotatePagesLeft :: "nat list \<Rightarrow> document \<Rightarrow> document" where
  "rotatePagesLeft idxs d = (if idxs = [] then d else execute_on (RotatePagesLeft idxs) d)"

definition undoCommand :: "document \<Rightarrow> document_error + document" where
  "undoCommand d =
     (case undo (history d, pages d) of
        Inl e \<Rightarrow> Inl e
      | Inr (h, ps) \<Rightarrow> Inr \<lparr>pages = ps, history = h\<rparr>)"

definition redoCommand :: "document \<Rightarrow> document_error + document" where
  "redoCommand d =
     (case redo (history d, pages d) of
        Inl e \<Rightarrow> Inl e
      | Inr (h, ps) \<Rightarrow> Inr \<lparr>pages = ps, history = h\<rparr>)"

text \<open>
  The edit requests a caller can make, and a whole sequence of them. Undoing until
  \<^verbatim>\<open>canUndo()\<close> is false is a loop over the applied stack.
\<close>

datatype edit =
    EditRemovePages "nat list"
  | EditRemovePageRange int int
  | EditRotateRight "nat list"
  | EditRotateLeft "nat list"

fun apply_edit :: "edit \<Rightarrow> document \<Rightarrow> document" where
  "apply_edit (EditRemovePages idxs) d = removePages idxs d"
| "apply_edit (EditRemovePageRange start end) d = removePageRange start end d"
| "apply_edit (EditRotateRight idxs) d = rotatePagesRight idxs d"
| "apply_edit (EditRotateLeft idxs) d = rotatePagesLeft idxs d"

definition apply_edits :: "edit list \<Rightarrow> document \<Rightarrow> document" where
  "apply_edits es d = foldl (\<lambda>d e. apply_edit e d) d es"

text \<open>The Command an edit request constructs against a page sequence.\<close>

fun command_of :: "edit \<Rightarrow> page list \<Rightarrow> command" where
  "command_of (EditRemovePages idxs) ps = RemovePages idxs (removed_entries idxs ps)"
| "command_of (EditRemovePageRange start end) ps =
     RemovePageRange start end (removed_entries (range_indices start end) ps)"
| "command_of (EditRotateRight idxs) ps = RotatePagesRight idxs"
| "command_of (EditRotateLeft idxs) ps = RotatePagesLeft idxs"

function undo_all :: "document \<Rightarrow> document" where
  "undo_all d =
     (if canUndo d
      then (case undoCommand d of Inl e \<Rightarrow> d | Inr d' \<Rightarrow> undo_all d')
      else d)"
  by pat_completeness auto
termination
  by (relation "measure (\<lambda>d. length (applied (history d)))")
     (auto simp: undoCommand_def undo_def canUndo_def canUndo_history_def
           split: list.splits sum.splits)

declare undo_all.simps [simp del]

text \<open>
  Modelled from the spec: whether an edit request runs a Command. Only then the Document
  emits its change notification; an empty target set is a silent no-op.
\<close>

fun edit_targets :: "edit \<Rightarrow> nat list" where
  "edit_targets (EditRemovePages idxs) = idxs"
| "edit_targets (EditRemovePageRange start end) = range_indices start end"
| "edit_targets (EditRotateRight idxs) = idxs"
| "edit_targets (EditRotateLeft idxs) = idxs"

definition emits_commandExecuted :: "edit \<Rightarrow> bool" where
  "emits_commandExecuted e = (edit_targets e \<noteq> [])"

text \<open>
  Modelled from the spec: what \<^verbatim>\<open>PdfSaver::save\<close> persists, namely the current
  page sequence with rotations and removals applied. Each written page is given by its
  source index and its rotation.
\<close>

definition PdfSaver_save :: "document \<Rightarrow> (nat \<times> rotation) list" where
  "PdfSaver_save d = map (\<lambda>p. (source_index p, rotation p)) (filter (\<lambda>p. \<not> removed p) (pages d))"

text \<open>Reversing a whole applied stack, most recent command first.\<close>

definition unwind :: "command list \<Rightarrow> page list \<Rightarrow> page list" where
  "unwind cs ps = foldl (\<lambda>ps c. reverse_command c ps) ps cs"

text \<open>
  The positions of a list of removed entries fit a sequence of length \<open>n\<close> when each
  entry can be inserted inside the sequence built so far.
\<close>

fun fits :: "nat \<Rightarrow> (nat \<times> page) list \<Rightarrow> bool" where
  "fits n [] = True"
| "fits n (e # es) = (fst e \<le> n \<and> fits (Suc n) es)"

section \<open>The application window (appwindow.cpp)\<close>

subsection \<open>State\<close>

text \<open>
  The actions of \<^verbatim>\<open>AppWindow::addActions\<close>, named after the members that hold
  them.
\<close>

datatype action =
    OpenAction | SaveAction | UndoAction | RedoAction
  | RemoveSelectedAction | RemoveUnselectedAction | RemovePreviousAction | RemoveNextAction
  | RotateRightAction | RotateLeftAction | CancelSelectionAction
  | ShortcutsAction | AboutAction

text \<open>
  The View is not part of the files at hand. The window only asks it four questions, and
  the record holds the answers the View currently gives:
  \<^verbatim>\<open>getSelectedChildrenIndexes()\<close>, \<^verbatim>\<open>getUnselectedChildrenIndexes()\<close>,
  \<^verbatim>\<open>getSelectedChildIndex()\<close> and \<^verbatim>\<open>get_children().size()\<close>. No relation
  between the answers is built in.
\<close>

record view =
  selectedChildrenIndexes :: "nat list"
  unselectedChildrenIndexes :: "nat list"
  selectedChildIndex :: int
  children :: nat

text \<open>
  The saving revealer is shown by \<^verbatim>\<open>saving()\<close>, switched by \<^verbatim>\<open>saved()\<close>
  and hidden by \<^verbatim>\<open>set_reveal_child(false)\<close>.
\<close>

datatype revealer = Hidden | RevealSaving | RevealSaved

text \<open>
  A detached worker thread of \<^verbatim>\<open>trySaveDocument\<close> runs its lambda in two steps:
  first the \<^verbatim>\<open>try\<close> block with its handler (save, then emit one of the two
  dispatchers), then the assignment \<^verbatim>\<open>m_isSavingDocument = false\<close>.
\<close>

datatype stage = Started | Emitted | Finished

record worker =
  destination :: string
  stage :: stage

datatype signal = Saved | SavingFailed

datatype save_outcome = SaveReturns | SaveThrows

datatype fault = NullDocument | Uncaught document_error

text \<open>
  The members of the window that the handlers read and write, followed by what lies
  around the window: the worker threads it has started, the dispatcher emissions that
  wait for the main loop, the files written by completed saves, the logger output, the
  error dialogs shown, and whether the window has been closed. Header-bar subtitle, stack
  page and zoom level are presentation only and are left out.
\<close>

record app_window =
  m_document :: "document option"
  m_isSavingDocument :: bool
  enabled :: "action \<Rightarrow> bool"
  m_view :: view
  m_savingRevealer :: revealer
  threads :: "worker list"
  pending :: "signal list"
  files :: "(string \<times> (nat \<times> rotation) list) list"
  logged :: "string list"
  error_dialogs :: "string list"
  closed :: bool

subsection \<open>Handlers\<close>

definition set_enabled :: "action \<Rightarrow> bool \<Rightarrow> app_window \<Rightarrow> app_window" where
  "set_enabled a b w = w\<lparr>enabled := (enabled w)(a := b)\<rparr>"

text \<open>
  \<^verbatim>\<open>addActions\<close>: a new action is enabled; ten of them are disabled at once.
\<close>

definition addActions :: "action \<Rightarrow> bool" where
  "addActions a = (a = OpenAction \<or> a = ShortcutsAction \<or> a = AboutAction)"

text \<open>
  The window after its constructor, showing a view with the given answers. The flag
  \<^verbatim>\<open>m_isSavingDocument\<close> is declared in a header that is not at hand; it starts
  out false here.
\<close>

definition new_window :: "view \<Rightarrow> app_window" where
  "new_window v =
     \<lparr>m_document = None, m_isSavingDocument = False, enabled = addActions, m_view = v,
      m_savingRevealer = Hidden, threads = [], pending = [], files = [], logged = [],
      error_dialogs = [], closed = False\<rparr>"

definition setDocument :: "document \<Rightarrow> app_window \<Rightarrow> app_window" where
  "setDocument doc w = set_enabled SaveAction True (w\<lparr>m_document := Some doc\<rparr>)"

definition on_delete_event :: "app_window \<Rightarrow> bool" where
  "on_delete_event w = m_isSavingDocument w"

definition disableEditingActions :: "app_window \<Rightarrow> app_window" where
  "disableEditingActions w =
     (set_enabled CancelSelectionAction False \<circ>
      set_enabled RotateLeftAction False \<circ>
      set_enabled RotateRightAction False \<circ>
      set_enabled RemoveNextAction False \<circ>
      set_enabled RemovePreviousAction False \<circ>
      set_enabled RemoveUnselectedAction False \<circ>
      set_enabled RemoveSelectedAction False \<circ>
      set_enabled RedoAction False \<circ>
      set_enabled UndoAction False \<circ>
      set_enabled SaveAction False \<circ>
      set_enabled OpenAction False) w"

definition onSelectedPagesChanged :: "app_window \<Rightarrow> app_window" where
  "onSelectedPagesChanged w =
     (let numSelected = length (selectedChildrenIndexes (m_view w));
          w1 = (if numSelected = 0
                then (set_enabled CancelSelectionAction False \<circ>
                      set_enabled RotateLeftAction False \<circ>
                      set_enabled RotateRightAction False \<circ>
                      set_enabled RemoveNextAction False \<circ>
                      set_enabled RemovePreviousAction False \<circ>
                      set_enabled RemoveUnselectedAction False \<circ>
                      set_enabled RemoveSelectedAction False) w
                else (set_enabled CancelSelectionAction True \<circ>
                      set_enabled RemoveUnselectedAction True \<circ>
                      set_enabled RotateLeftAction True \<circ>
                      set_enabled RotateRightAction True \<circ>
                      set_enabled RemoveSelectedAction True) w);
          w2 = (if numSelected = 1
                then (let index = selectedChildIndex (m_view w);
                          numPages = int (children (m_view w))
                      in set_enabled RemoveNextAction (index \<noteq> numPages - 1)
                           (set_enabled RemovePreviousAction (index \<noteq> 0) w1))
                else w1)
      in if numSelected > 1
         then set_enabled RemoveNextAction False (set_enabled RemovePreviousAction False w2)
         else w2)"

definition onCommandExecuted :: "app_window \<Rightarrow> fault + app_window" where
  "onCommandExecuted w =
     (case m_document w of
        None \<Rightarrow> Inl NullDocument
      | Some d \<Rightarrow> Inr (set_enabled RedoAction (canRedo d) (set_enabled UndoAction (canUndo d) w)))"

definition enableEditingActions :: "app_window \<Rightarrow> fault + app_window" where
  "enableEditingActions w =
     onCommandExecuted
       (onSelectedPagesChanged (set_enabled SaveAction True (set_enabled OpenAction True w)))"

text \<open>
  \<^verbatim>\<open>trySaveDocument\<close> on the controlling thread: show the revealer, disable the
  editing actions, raise the flag and start a detached worker.
\<close>

definition trySaveDocument :: "string \<Rightarrow> app_window \<Rightarrow> app_window" where
  "trySaveDocument file w =
     (disableEditingActions (w\<lparr>m_savingRevealer := RevealSaving\<rparr>))
       \<lparr>m_isSavingDocument := True,
        threads := threads w @ [\<lparr>destination = file, stage = Started\<rparr>]\<rparr>"

text \<open>
  The first step of worker \<open>i\<close>: \<^verbatim>\<open>PdfSaver{*m_document}.save(file)\<close> reads the
  Document the window holds when the step runs. When the save returns, the file is
  written and the saved dispatcher is emitted; when it throws, two lines are logged and
  the failure dispatcher is emitted.
\<close>

definition worker_save :: "nat \<Rightarrow> save_outcome \<Rightarrow> app_window \<Rightarrow> fault + app_window" where
  "worker_save i outcome w =
     (if i < length (threads w) \<and> stage (threads w ! i) = Started
      then (case m_document w of
              None \<Rightarrow> Inl NullDocument
            | Some d \<Rightarrow>
                (let file = destination (threads w ! i);
                     w' = w\<lparr>threads := (threads w)[i := (threads w ! i)\<lparr>stage := Emitted\<rparr>]\<rparr>
                 in case outcome of
                      SaveReturns \<Rightarrow>
                        Inr (w'\<lparr>files := files w @ [(file, PdfSaver_save d)],
                                 pending := pending w @ [Saved]\<rparr>)
                    | SaveThrows \<Rightarrow>
                        Inr (w'\<lparr>logged := logged w @
                                   [''Saving the document failed'',
                                    ''The destination file was: '' @ file],
                                 pending := pending w @ [SavingFailed]\<rparr>)))
      else Inr w)"

text \<open>The second step of worker \<open>i\<close>: the flag is lowered and the thread ends.\<close>

definition worker_exit :: "nat \<Rightarrow> app_window \<Rightarrow> app_window" where
  "worker_exit i w =
     (if i < length (threads w) \<and> stage (threads w ! i) = Emitted
      then w\<lparr>m_isSavingDocument := False,
             threads := (threads w)[i := (threads w ! i)\<lparr>stage := Finished\<rparr>]\<rparr>
      else w)"

text \<open>
  The main loop delivers the oldest waiting emission to the handler that
  \<^verbatim>\<open>setupSignalHandlers\<close> connected to its dispatcher.
\<close>

definition on_signal :: "signal \<Rightarrow> app_window \<Rightarrow> fault + app_window" where
  "on_signal s w =
     (case s of
        Saved \<Rightarrow> enableEditingActions (w\<lparr>m_savingRevealer := RevealSaved\<rparr>)
      | SavingFailed \<Rightarrow>
          (case enableEditingActions (w\<lparr>m_savingRevealer := Hidden\<rparr>) of
             Inl f \<Rightarrow> Inl f
           | Inr w' \<Rightarrow>
               Inr (w'\<lparr>error_dialogs := error_dialogs w' @
                                           [''The current document could not be saved'']\<rparr>)))"

definition dispatch :: "app_window \<Rightarrow> fault + app_window" where
  "dispatch w =
     (case pending w of
        [] \<Rightarrow> Inr w
      | s # rest \<Rightarrow> on_signal s (w\<lparr>pending := rest\<rparr>))"

text \<open>
  \<^verbatim>\<open>tryOpenDocument\<close>: the outcome of the Document constructor is an input. The
  two history actions are disabled inside the \<^verbatim>\<open>try\<close> block before the Document is
  constructed.
\<close>

definition tryOpenDocument ::
  "string \<Rightarrow> document_error + document \<Rightarrow> app_window \<Rightarrow> app_window" where
  "tryOpenDocument file constructed w =
     (let w1 = set_enabled RedoAction False (set_enabled UndoAction False w)
      in case constructed of
           Inr document \<Rightarrow> setDocument document w1
         | Inl e \<Rightarrow>
             w1\<lparr>logged := logged w1 @ [''The file couldn't be opened'', ''Filepath: '' @ file],
                error_dialogs := error_dialogs w1 @ [''The selected file could not be opened'']\<rparr>)"

text \<open>
  An edit handler calls the Document; \<^verbatim>\<open>setDocument\<close> connected
  \<^verbatim>\<open>onCommandExecuted\<close> to the Document's change notification, so it runs after
  every operation that executed a command.
\<close>

definition edit_document :: "edit \<Rightarrow> app_window \<Rightarrow> fault + app_window" where
  "edit_document e w =
     (case m_document w of
        None \<Rightarrow> Inl NullDocument
      | Some d \<Rightarrow>
          (let w' = w\<lparr>m_document := Some (apply_edit e d)\<rparr>
           in if emits_commandExecuted e then onCommandExecuted w' else Inr w'))"

definition history_document ::
  "(document \<Rightarrow> document_error + document) \<Rightarrow> app_window \<Rightarrow> fault + app_window" where
  "history_document f w =
     (case m_document w of
        None \<Rightarrow> Inl NullDocument
      | Some d \<Rightarrow>
          (case f d of
             Inl e \<Rightarrow> Inl (Uncaught e)
           | Inr d' \<Rightarrow> onCommandExecuted (w\<lparr>m_document := Some d'\<rparr>)))"

definition onUndoAction :: "app_window \<Rightarrow> fault + app_window" where
  "onUndoAction w = history_document undoCommand w"

definition onRedoAction :: "app_window \<Rightarrow> fault + app_window" where
  "onRedoAction w = history_document redoCommand w"

definition onRemoveSelectedPages :: "app_window \<Rightarrow> fault + app_window" where
  "onRemoveSelectedPages w =
     edit_document (EditRemovePages (selectedChildrenIndexes (m_view w))) w"

definition onRemoveUnselectedPages :: "app_window \<Rightarrow> fault + app_window" where
  "onRemoveUnselectedPages w =
     edit_document (EditRemovePages (unselectedChildrenIndexes (m_view w))) w"

definition onRemovePreviousPages :: "app_window \<Rightarrow> fault + app_window" where
  "onRemovePreviousPages w =
     edit_document (EditRemovePageRange 0 (selectedChildIndex (m_view w) - 1)) w"

definition onRemoveNextPages :: "app_window \<Rightarrow> fault + app_window" where
  "onRemoveNextPages w =
     (case m_document w of
        None \<Rightarrow> Inl NullDocument
      | Some d \<Rightarrow>
          edit_document
            (EditRemovePageRange (selectedChildIndex (m_view w) + 1) (int (length (pages d)) - 1)) w)"

definition onRotatePagesRight :: "app_window \<Rightarrow> fault + app_window" where
  "onRotatePagesRight w =
     edit_document (EditRotateRight (selectedChildrenIndexes (m_view w))) w"

definition onRotatePagesLeft :: "app_window \<Rightarrow> fault + app_window" where
  "onRotatePagesLeft w =
     edit_document (EditRotateLeft (selectedChildrenIndexes (m_view w))) w"

text \<open>
  \<^verbatim>\<open>onSaveAction\<close> and \<^verbatim>\<open>onOpenAction\<close> run a file dialog; its answer is
  the chosen path, or nothing when the dialog was not accepted.
\<close>

definition onSaveAction :: "string option \<Rightarrow> app_window \<Rightarrow> app_window" where
  "onSaveAction chosen w = (case chosen of None \<Rightarrow> w | Some file \<Rightarrow> trySaveDocument file w)"

definition onOpenAction ::
  "string option \<Rightarrow> document_error + document \<Rightarrow> app_window \<Rightarrow> app_window" where
  "onOpenAction chosen constructed w =
     (case chosen of None \<Rightarrow> w | Some file \<Rightarrow> tryOpenDocument file constructed w)"

subsection \<open>Events\<close>

text \<open>
  What can happen to a window: an action is activated (with the answer of the file dialog
  and the outcome of the Document constructor, which only the save and open handlers
  use), the view reports a changed selection, the user asks to close the window, a worker
  thread takes one of its two steps, or the main loop delivers a dispatcher emission. An
  activation of a disabled action is ignored, and a closed window handles no events.
  \<^verbatim>\<open>clearSelection\<close>, the shortcuts window and the about dialog do not touch the
  members modelled here; the view reports a cleared selection as a changed selection.
\<close>

datatype event =
    Activate action "string option" "document_error + document"
  | SelectionChanged view
  | DeleteEvent
  | WorkerSaves nat save_outcome
  | WorkerExits nat
  | Dispatch

fun handler :: "action \<Rightarrow> string option \<Rightarrow> document_error + document \<Rightarrow> app_window \<Rightarrow> fault + app_window" where
  "handler OpenAction chosen constructed w = Inr (onOpenAction chosen constructed w)"
| "handler SaveAction chosen constructed w = Inr (onSaveAction chosen w)"
| "handler UndoAction chosen constructed w = onUndoAction w"
| "handler RedoAction chosen constructed w = onRedoAction w"
| "handler RemoveSelectedAction chosen constructed w = onRemoveSelectedPages w"
| "handler RemoveUnselectedAction chosen constructed w = onRemoveUnselectedPages w"
| "handler RemovePreviousAction chosen constructed w = onRemovePreviousPages w"
| "handler RemoveNextAction chosen constructed w = onRemoveNextPages w"
| "handler RotateRightAction chosen constructed w = onRotatePagesRight w"
| "handler RotateLeftAction chosen constructed w = onRotatePagesLeft w"
| "handler CancelSelectionAction chosen constructed w = Inr w"
| "handler ShortcutsAction chosen constructed w = Inr w"
| "handler AboutAction chosen constructed w = Inr w"

fun handle :: "event \<Rightarrow> app_window \<Rightarrow> fault + app_window" where
  "handle (Activate a chosen constructed) w =
     (if enabled w a then handler a chosen constructed w else Inr w)"
| "handle (SelectionChanged v) w = Inr (onSelectedPagesChanged (w\<lparr>m_view := v\<rparr>))"
| "handle DeleteEvent w = Inr (if on_delete_event w then w else w\<lparr>closed := True\<rparr>)"
| "handle (WorkerSaves i outcome) w = worker_save i outcome w"
| "handle (WorkerExits i) w = Inr (worker_exit i w)"
| "handle Dispatch w = dispatch w"

definition step :: "event \<Rightarrow> app_window \<Rightarrow> fault + app_window" where
  "step e w = (if closed w then Inr w else handle e w)"

fun run :: "event list \<Rightarrow> app_window \<Rightarrow> fault + app_window" where
  "run [] w = Inr w"
| "run (e # es) w = (case step e w of Inl f \<Rightarrow> Inl f | Inr w' \<Rightarrow> run es w')"

text \<open>
  The phase of the save coordinator is the flag \<^verbatim>\<open>m_isSavingDocument\<close>; a save is
  in flight while a worker has not yet finished its first step.
\<close>

datatype phase = Idle | Saving

definition phase :: "app_window \<Rightarrow> phase" where
  "phase w = (if m_isSavingDocument w then Saving else Idle)"

definition in_flight :: "app_window \<Rightarrow> nat" where
  "in_flight w = length (filter (\<lambda>t. stage t = Started) (threads w))"

text \<open>Observing a window after a sequence of events, when no fault stopped it.\<close>

definition after :: "event list \<Rightarrow> app_window \<Rightarrow> (app_window \<Rightarrow> 'a) \<Rightarrow> 'a option" where
  "after es w observe = (case run es w of Inl f \<Rightarrow> None | Inr w' \<Rightarrow> Some (observe w'))"

text \<open>
  At most one save is between its request and the delivery of its signal, and while one
  is there, the save action and the open action are disabled.
\<close>

definition single_save :: "app_window \<Rightarrow> bool" where
  "single_save w =
     (in_flight w + length (pending w) = 0
      \<or> in_flight w + length (pending w) = 1
        \<and> enabled w SaveAction = False \<and> enabled w OpenAction = False)"

text \<open>The events a user can cause while the selection stays as it is.\<close>

fun user_request :: "event \<Rightarrow> bool" where
  "user_request (Activate a chosen constructed) = True"
| "user_request DeleteEvent = True"
| "user_request e = False"

text \<open>The eleven actions that \<^verbatim>\<open>disableEditingActions\<close> switches off.\<close>

definition editing_action :: "action \<Rightarrow> bool" where
  "editing_action a = (a \<noteq> ShortcutsAction \<and> a \<noteq> AboutAction)"

text \<open>
  The enabled state that the selection and the history of the open Document dictate:
  what \<^verbatim>\<open>enableEditingActions\<close> establishes.
\<close>

definition selection_actions :: "view \<Rightarrow> action \<Rightarrow> bool" where
  "selection_actions v a =
     (let n = length (selectedChildrenIndexes v) in
      if a = RemovePreviousAction then n = 1 \<and> selectedChildIndex v \<noteq> 0
      else if a = RemoveNextAction then n = 1 \<and> selectedChildIndex v \<noteq> int (children v) - 1
      else n \<noteq> 0)"

definition settled :: "app_window \<Rightarrow> bool" where
  "settled w =
     (case m_document w of
        None \<Rightarrow> False
      | Some d \<Rightarrow>
          enabled w OpenAction \<and> enabled w SaveAction \<and>
          enabled w UndoAction = canUndo d \<and> enabled w RedoAction = canRedo d \<and>
          list_all (\<lambda>a. enabled w a = selection_actions (m_view w) a)
            [RemoveSelectedAction, RemoveUnselectedAction, RemovePreviousAction,
             RemoveNextAction, RotateRightAction, RotateLeftAction, CancelSelectionAction])"

text \<open>The seven actions that \<^verbatim>\<open>onSelectedPagesChanged\<close> sets.\<close>

definition selection_dependent :: "action \<Rightarrow> bool" where
  "selection_dependent a =
     (a \<in> set [RemoveSelectedAction, RemoveUnselectedAction, RemovePreviousAction,
             RemoveNextAction, RotateRightAction, RotateLeftAction, CancelSelectionAction])"


section \<open>The settings manager (settingsmanager.cpp)\<close>

text \<open>
  A key file maps a group and a key to the raw text of the value. How GLib reads an
  integer or a boolean out of that text is a parameter: a function that yields no value
  for text it rejects. A lookup throws when the entry is absent or its text is rejected.
\<close>

type_synonym key_file = "string \<times> string \<Rightarrow> string option"

datatype key_file_error = KeyNotFound | InvalidValue

record window_state =
  width :: int
  height :: int
  isMaximized :: bool

definition groupName :: string where
  "groupName = ''window-state''"

definition keys_width :: string where
  "keys_width = ''width''"

definition keys_height :: string where
  "keys_height = ''height''"

definition keys_isMaximized :: string where
  "keys_isMaximized = ''is-maximized''"

definition defaultWindowState :: window_state where
  "defaultWindowState = \<lparr>width = 800, height = 600, isMaximized = False\<rparr>"

definition get_value :: "(string \<Rightarrow> 'a option) \<Rightarrow> key_file \<Rightarrow> string \<Rightarrow> string \<Rightarrow> key_file_error + 'a" where
  "get_value parse kf g k =
     (case kf (g, k) of
        None \<Rightarrow> Inl KeyNotFound
      | Some text \<Rightarrow> (case parse text of None \<Rightarrow> Inl InvalidValue | Some v \<Rightarrow> Inr v))"

text \<open>
  \<^verbatim>\<open>loadWindowState\<close>: three lookups inside one \<^verbatim>\<open>try\<close> block; any throw
  replaces the whole result by the default.
\<close>

definition loadWindowState ::
  "(string \<Rightarrow> int option) \<Rightarrow> (string \<Rightarrow> bool option) \<Rightarrow> key_file \<Rightarrow> window_state" where
  "loadWindowState get_integer get_boolean m_keyFile =
     (case get_value get_integer m_keyFile groupName keys_width of
        Inl e \<Rightarrow> defaultWindowState
      | Inr w \<Rightarrow>
          (case get_value get_integer m_keyFile groupName keys_height of
             Inl e \<Rightarrow> defaultWindowState
           | Inr h \<Rightarrow>
               (case get_value get_boolean m_keyFile groupName keys_isMaximized of
                  Inl e \<Rightarrow> defaultWindowState
                | Inr m \<Rightarrow> \<lparr>width = w, height = h, isMaximized = m\<rparr>)))"

text \<open>
  \<^verbatim>\<open>loadConfigFile\<close>, run by the constructor on an empty key file: the settings
  file either cannot be read, and the swallowed exception leaves the key file empty, or
  it yields its entries.
\<close>

definition loadConfigFile :: "key_file option \<Rightarrow> key_file" where
  "loadConfigFile settings_file = (case settings_file of None \<Rightarrow> Map.empty | Some kf \<Rightarrow> kf)"

section \<open>Example inputs\<close>

text \<open>
  A page as it is when a Document is opened, a Document of two such pages, and two
  answers of a view that shows two pages: nothing selected, and the first page selected.
\<close>

definition page_of :: "nat \<Rightarrow> page" where
  "page_of i = \<lparr>source_index = i, rotation = Deg0, removed = False\<rparr>"

definition two_pages :: document where
  "two_pages = new_document [page_of 0, page_of 1]"

definition nothing_selected :: view where
  "nothing_selected =
     \<lparr>selectedChildrenIndexes = [], unselectedChildrenIndexes = [0, 1],
      selectedChildIndex = - 1, children = 2\<rparr>"

definition first_selected :: view where
  "first_selected =
     \<lparr>selectedChildrenIndexes = [0], unselectedChildrenIndexes = [1],
      selectedChildIndex = 0, children = 2\<rparr>"

definition second_selected :: view where
  "second_selected =
     \<lparr>selectedChildrenIndexes = [1], unselectedChildrenIndexes = [0],
      selectedChildIndex = 1, children = 2\<rparr>"

text \<open>Opening the two-page Document, and asking to save it, as events.\<close>

definition open_two_pages :: event where
  "open_two_pages = Activate OpenAction (Some ''in.pdf'') (Inr two_pages)"

definition save_as :: "string \<Rightarrow> event" where
  "save_as file = Activate SaveAction (Some file) (Inl OpenError)"

definition activate :: "action \<Rightarrow> event" where
  "activate a = Activate a None (Inl OpenError)"

text \<open>
  The window that has opened the two-page Document, the same window after a save request,
  and a window that shows a three-page Document with its middle page selected.
\<close>

definition editing_two_pages :: app_window where
  "editing_two_pages = tryOpenDocument ''in.pdf'' (Inr two_pages) (new_window nothing_selected)"

definition saving_two_pages :: app_window where
  "saving_two_pages = trySaveDocument ''a.pdf'' editing_two_pages"

definition three_pages :: document where
  "three_pages = new_document [page_of 0, page_of 1, page_of 2]"

definition middle_selected :: view where
  "middle_selected =
     \<lparr>selectedChildrenIndexes = [1], unselectedChildrenIndexes = [0, 2],
      selectedChildIndex = 1, children = 3\<rparr>"

definition editing_three_pages :: app_window where
  "editing_three_pages = tryOpenDocument ''in.pdf'' (Inr three_pages) (new_window middle_selected)"



text \<open>A key file that holds a window state, and readers for the texts it uses.\<close>

definition example_key_file :: key_file where
  "example_key_file =
     [(''window-state'', ''width'') \<mapsto> ''1024'',
      (''window-state'', ''height'') \<mapsto> ''768'',
      (''window-state'', ''is-maximized'') \<mapsto> ''true'']"

definition example_integer :: "string \<Rightarrow> int option" where
  "example_integer = [''1024'' \<mapsto> 1024, ''768'' \<mapsto> 768]"

definition example_boolean :: "string \<Rightarrow> bool option" where
  "example_boolean = [''true'' \<mapsto> True, ''false'' \<mapsto> False]"

section \<open>Properties of the edit engine\<close>

lemma sub90_add90: "sub90 (add90 r) = r"
  by (cases r) simp_all

lemma add90_sub90: "add90 (sub90 r) = r"
  by (cases r) simp_all

lemma rotate_Left_Right: "rotate Left (rotate Right p) = p"
  by (simp add: sub90_add90)

lemma rotate_Right_Left: "rotate Right (rotate Left p) = p"
  by (simp add: add90_sub90)

lemma map_enumerate_twice:
  "map (\<lambda>(i, p). g i p) (enumerate n (map (\<lambda>(i, p). f i p) (enumerate n ps)))
     = map (\<lambda>(i, p). g i (f i p)) (enumerate n ps)"
  by (induction ps arbitrary: n) simp_all

lemma map_enumerate_id: "map (\<lambda>(i, p). p) (enumerate n ps) = ps"
  by (induction ps arbitrary: n) simp_all

lemma rotate_indices_Left_Right: "rotate_indices Left idxs (rotate_indices Right idxs ps) = ps"
proof -
  have "rotate_indices Left idxs (rotate_indices Right idxs ps)
          = map (\<lambda>(i, p). if i \<in> set idxs then rotate Left (rotate Right p) else p) (enumerate 0 ps)"
    unfolding rotate_indices_def map_enumerate_twice
    by (rule map_cong) auto
  also have "\<dots> = map (\<lambda>(i, p). p) (enumerate 0 ps)"
    by (rule map_cong) (auto simp: rotate_Left_Right simp del: rotate.simps)
  finally show ?thesis by (simp only: map_enumerate_id)
qed

lemma rotate_indices_Right_Left: "rotate_indices Right idxs (rotate_indices Left idxs ps) = ps"
proof -
  have "rotate_indices Right idxs (rotate_indices Left idxs ps)
          = map (\<lambda>(i, p). if i \<in> set idxs then rotate Right (rotate Left p) else p) (enumerate 0 ps)"
    unfolding rotate_indices_def map_enumerate_twice
    by (rule map_cong) auto
  also have "\<dots> = map (\<lambda>(i, p). p) (enumerate 0 ps)"
    by (rule map_cong) (auto simp: rotate_Right_Left simp del: rotate.simps)
  finally show ?thesis by (simp only: map_enumerate_id)
qed

lemma fits_append: "fits n (es @ fs) = (fits n es \<and> fits (n + length es) fs)"
  by (induction es arbitrary: n) auto

lemma fits_mono: "fits n es \<Longrightarrow> n \<le> m \<Longrightarrow> fits m es"
  by (induction es arbitrary: n m) auto

lemma length_insert_at: "length (insert_at e xs) = Suc (length xs)"
  by (simp add: insert_at_def)

lemma insert_at_append: "fst e \<le> length xs \<Longrightarrow> insert_at e (xs @ ys) = insert_at e xs @ ys"
  by (simp add: insert_at_def)

lemma reinsert_append:
  "fits (length xs) es \<Longrightarrow> reinsert es (xs @ ys) = reinsert es xs @ ys"
proof (induction es arbitrary: xs)
  case Nil
  then show ?case by (simp add: reinsert_def)
next
  case (Cons e es)
  from Cons.prems have le: "fst e \<le> length xs" and f: "fits (length (insert_at e xs)) es"
    by (simp_all add: length_insert_at)
  have "reinsert (e # es) (xs @ ys) = reinsert es (insert_at e (xs @ ys))"
    by (simp add: reinsert_def)
  also have "\<dots> = reinsert es (insert_at e xs @ ys)"
    by (simp add: insert_at_append [OF le])
  also have "\<dots> = reinsert es (insert_at e xs) @ ys"
    by (rule Cons.IH [OF f])
  finally show ?case by (simp add: reinsert_def)
qed

lemma reinsert_snoc: "reinsert (es @ [e]) xs = insert_at e (reinsert es xs)"
  by (simp add: reinsert_def)

lemma removed_entries_snoc:
  "removed_entries idxs (ps @ [x]) =
     (if length ps \<in> set idxs then removed_entries idxs ps @ [(length ps, x)]
      else removed_entries idxs ps)"
  by (simp add: removed_entries_def enumerate_append_eq)

lemma survivors_snoc:
  "survivors idxs (ps @ [x]) =
     (if length ps \<in> set idxs then survivors idxs ps else survivors idxs ps @ [x])"
  by (simp add: survivors_def enumerate_append_eq)

lemma length_split: "length (survivors idxs ps) + length (removed_entries idxs ps) = length ps"
proof (induction ps rule: rev_induct)
  case Nil
  show ?case by (simp add: survivors_def removed_entries_def)
next
  case (snoc x ps)
  then show ?case by (simp add: removed_entries_snoc survivors_snoc)
qed

lemma fits_removed_entries: "fits (length (survivors idxs ps)) (removed_entries idxs ps)"
proof (induction ps rule: rev_induct)
  case Nil
  then show ?case by (simp add: removed_entries_def)
next
  case (snoc x ps)
  show ?case
  proof (cases "length ps \<in> set idxs")
    case True
    have "length ps \<le> length (survivors idxs ps) + length (removed_entries idxs ps)"
      by (simp add: length_split)
    with True snoc show ?thesis
      by (simp add: removed_entries_snoc survivors_snoc fits_append)
  next
    case False
    with snoc show ?thesis
      by (auto simp: removed_entries_snoc survivors_snoc intro: fits_mono)
  qed
qed

lemma reinsert_survivors: "reinsert (removed_entries idxs ps) (survivors idxs ps) = ps"
proof (induction ps rule: rev_induct)
  case Nil
  then show ?case by (simp add: removed_entries_def survivors_def reinsert_def)
next
  case (snoc x ps)
  show ?case
  proof (cases "length ps \<in> set idxs")
    case True
    then show ?thesis
      using snoc by (simp add: removed_entries_snoc survivors_snoc reinsert_snoc insert_at_def)
  next
    case False
    then show ?thesis
      using snoc reinsert_append [OF fits_removed_entries, of idxs ps "[x]"]
      by (simp add: removed_entries_snoc survivors_snoc)
  qed
qed

lemma reverse_apply_command_of:
  "reverse_command (command_of e ps) (apply_command (command_of e ps) ps) = ps"
  by (cases e) (simp_all add: reinsert_survivors rotate_indices_Left_Right rotate_indices_Right_Left)


lemma apply_edit_eq:
  "apply_edit e d =
     (if edit_targets e = [] then d else execute_on (command_of e (pages d)) d)"
  by (cases e)
     (simp_all add: removePages_def removePageRange_def rotatePagesRight_def rotatePagesLeft_def)

lemma unwind_execute_on:
  "unwind (applied (history (execute_on (command_of e (pages d)) d)))
          (pages (execute_on (command_of e (pages d)) d))
     = unwind (applied (history d)) (pages d)"
  by (simp add: execute_on_def execute_def unwind_def reverse_apply_command_of)

lemma unwind_apply_edit:
  "unwind (applied (history (apply_edit e d))) (pages (apply_edit e d))
     = unwind (applied (history d)) (pages d)"
  by (simp add: apply_edit_eq unwind_execute_on)

lemma unwind_apply_edits:
  "unwind (applied (history (apply_edits es d))) (pages (apply_edits es d))
     = unwind (applied (history d)) (pages d)"
proof (induction es arbitrary: d)
  case Nil
  show ?case by (simp add: apply_edits_def)
next
  case (Cons e es)
  have "apply_edits (e # es) d = apply_edits es (apply_edit e d)"
    by (simp add: apply_edits_def)
  then show ?case
    by (simp add: Cons.IH unwind_apply_edit)
qed

lemma undo_all_empty: "applied (history d) = [] \<Longrightarrow> undo_all d = d"
  by (subst undo_all.simps) (simp add: canUndo_def canUndo_history_def)

lemma undo_all_step:
  "applied (history d) = c # cs \<Longrightarrow>
   undo_all d =
     undo_all \<lparr>pages = reverse_command c (pages d),
               history = \<lparr>applied = cs, undone = c # undone (history d)\<rparr>\<rparr>"
  by (subst undo_all.simps)
     (simp add: canUndo_def canUndo_history_def undoCommand_def undo_def)

lemma undo_all_unwinds:
  "applied (history d) = cs \<Longrightarrow>
   pages (undo_all d) = unwind cs (pages d) \<and> applied (history (undo_all d)) = []"
proof (induction cs arbitrary: d)
  case Nil
  then show ?case by (simp add: undo_all_empty unwind_def)
next
  case (Cons c cs)
  let ?d' = "\<lparr>pages = reverse_command c (pages d),
              history = \<lparr>applied = cs, undone = c # undone (history d)\<rparr>\<rparr>"
  have "applied (history ?d') = cs" by simp
  from Cons.IH [OF this] undo_all_step [OF Cons.prems]
  show ?case by (simp add: unwind_def)
qed

text \<open>
  Claim C7. For every sequence of edit requests applied to a freshly opened Document,
  undoing until \<^verbatim>\<open>canUndo()\<close> is false ends with \<^verbatim>\<open>canUndo()\<close> false
  and yields exactly the original page sequence, every page with its original rotation
  and removed flag. Also, for the Command that any edit request constructs against a
  page sequence, \<^verbatim>\<open>apply()\<close> followed by \<^verbatim>\<open>reverse()\<close> gives that
  sequence back.
\<close>

theorem undo_all_restores_original:
  "pages (undo_all (apply_edits es (new_document ps))) = ps
   \<and> canUndo (undo_all (apply_edits es (new_document ps))) = False
   \<and> reverse_command (command_of e ps) (apply_command (command_of e ps) ps) = ps"
proof -
  let ?d = "apply_edits es (new_document ps)"
  have "pages (undo_all ?d) = unwind (applied (history ?d)) (pages ?d)"
    using undo_all_unwinds [of ?d] by simp
  also have "\<dots> = unwind (applied (history (new_document ps))) (pages (new_document ps))"
    by (rule unwind_apply_edits)
  also have "\<dots> = ps"
    by (simp add: new_document_def empty_history_def unwind_def)
  finally have a: "pages (undo_all ?d) = ps" .
  have b: "canUndo (undo_all ?d) = False"
    using undo_all_unwinds [of ?d] by (simp add: canUndo_def canUndo_history_def)
  show ?thesis using a b reverse_apply_command_of by simp
qed

text \<open>
  Claim C8. Whatever the history holds, and so also when it holds undone commands,
  \<^verbatim>\<open>execute\<close> leaves the undone stack empty: \<^verbatim>\<open>canRedo()\<close> is false
  right after it, for the history and for the Document, and
  \<^verbatim>\<open>onCommandExecuted\<close> then disables the redo action of the window.
\<close>

theorem execute_discards_redo:
  "undone (fst (execute c (h, ps))) = []
   \<and> canRedo_history (fst (execute c (h, ps))) = False
   \<and> canRedo (execute_on c d) = False
   \<and> map_sum id (\<lambda>w'. enabled w' RedoAction)
        (onCommandExecuted (w\<lparr>m_document := Some (execute_on c d)\<rparr>)) = Inr False"
  by (simp add: execute_def canRedo_history_def canRedo_def execute_on_def
        onCommandExecuted_def set_enabled_def)

section \<open>Properties of the application window\<close>

subsection \<open>What the handlers leave alone\<close>

lemma set_enabled_fields [simp]:
  "enabled (set_enabled a b w) = (enabled w)(a := b)"
  "m_document (set_enabled a b w) = m_document w"
  "m_isSavingDocument (set_enabled a b w) = m_isSavingDocument w"
  "m_view (set_enabled a b w) = m_view w"
  "m_savingRevealer (set_enabled a b w) = m_savingRevealer w"
  "threads (set_enabled a b w) = threads w"
  "pending (set_enabled a b w) = pending w"
  "files (set_enabled a b w) = files w"
  "logged (set_enabled a b w) = logged w"
  "error_dialogs (set_enabled a b w) = error_dialogs w"
  "closed (set_enabled a b w) = closed w"
  by (simp_all add: set_enabled_def)

lemma disableEditingActions_enabled:
  "enabled (disableEditingActions w) a = (\<not> editing_action a \<and> enabled w a)"
  by (cases a) (simp_all add: disableEditingActions_def editing_action_def)

lemma disableEditingActions_fields [simp]:
  "m_document (disableEditingActions w) = m_document w"
  "m_isSavingDocument (disableEditingActions w) = m_isSavingDocument w"
  "m_view (disableEditingActions w) = m_view w"
  "m_savingRevealer (disableEditingActions w) = m_savingRevealer w"
  "threads (disableEditingActions w) = threads w"
  "pending (disableEditingActions w) = pending w"
  "files (disableEditingActions w) = files w"
  "logged (disableEditingActions w) = logged w"
  "error_dialogs (disableEditingActions w) = error_dialogs w"
  "closed (disableEditingActions w) = closed w"
  by (simp_all add: disableEditingActions_def)

lemma onSelectedPagesChanged_fields [simp]:
  "m_document (onSelectedPagesChanged w) = m_document w"
  "m_isSavingDocument (onSelectedPagesChanged w) = m_isSavingDocument w"
  "m_view (onSelectedPagesChanged w) = m_view w"
  "m_savingRevealer (onSelectedPagesChanged w) = m_savingRevealer w"
  "threads (onSelectedPagesChanged w) = threads w"
  "pending (onSelectedPagesChanged w) = pending w"
  "files (onSelectedPagesChanged w) = files w"
  "logged (onSelectedPagesChanged w) = logged w"
  "error_dialogs (onSelectedPagesChanged w) = error_dialogs w"
  "closed (onSelectedPagesChanged w) = closed w"
  by (simp_all add: onSelectedPagesChanged_def Let_def)

lemma onSelectedPagesChanged_enabled:
  "enabled (onSelectedPagesChanged w) a =
     (if selection_dependent a then selection_actions (m_view w) a else enabled w a)"
proof -
  let ?xs = "selectedChildrenIndexes (m_view w)"
  consider "?xs = []" | x where "?xs = [x]" | "1 < length ?xs"
    by (cases ?xs; cases "tl ?xs") auto
  then show ?thesis
  proof cases
    case 1
    then show ?thesis
      by (cases a)
         (simp_all add: onSelectedPagesChanged_def Let_def selection_actions_def
            selection_dependent_def)
  next
    case 2
    then show ?thesis
      by (cases a)
         (simp_all add: onSelectedPagesChanged_def Let_def selection_actions_def
            selection_dependent_def)
  next
    case 3
    then have "?xs \<noteq> []" "length ?xs \<noteq> Suc 0" by auto
    with 3 show ?thesis
      by (cases a)
         (simp_all add: onSelectedPagesChanged_def Let_def selection_actions_def
            selection_dependent_def)
  qed
qed

lemma onCommandExecuted_Inr:
  "onCommandExecuted w = Inr w' \<Longrightarrow>
     \<exists>d. m_document w = Some d \<and>
         w' = set_enabled RedoAction (canRedo d) (set_enabled UndoAction (canUndo d) w)"
  by (auto simp: onCommandExecuted_def split: option.splits)

lemma enableEditingActions_Some:
  "m_document w = Some d \<Longrightarrow>
   enableEditingActions w =
     Inr (set_enabled RedoAction (canRedo d) (set_enabled UndoAction (canUndo d)
           (onSelectedPagesChanged (set_enabled SaveAction True (set_enabled OpenAction True w)))))"
  by (simp add: enableEditingActions_def onCommandExecuted_def)

lemma enableEditingActions_enabled:
  "m_document w = Some d \<Longrightarrow> enableEditingActions w = Inr w' \<Longrightarrow>
   enabled w' a =
     (if a = OpenAction \<or> a = SaveAction then True
      else if a = UndoAction then canUndo d
      else if a = RedoAction then canRedo d
      else if selection_dependent a then selection_actions (m_view w) a
      else enabled w a)"
  by (cases a) (auto simp: enableEditingActions_Some onSelectedPagesChanged_enabled selection_dependent_def)

lemma settled_enabled:
  "settled w \<Longrightarrow> m_document w = Some d \<Longrightarrow>
   enabled w a =
     (if a = OpenAction \<or> a = SaveAction then True
      else if a = UndoAction then canUndo d
      else if a = RedoAction then canRedo d
      else if selection_dependent a then selection_actions (m_view w) a
      else enabled w a)"
  by (cases a) (auto simp: settled_def selection_dependent_def)

subsection \<open>Closing the window\<close>

text \<open>
  \<^verbatim>\<open>on_delete_event\<close> answers with the flag \<^verbatim>\<open>m_isSavingDocument\<close>: a save
  request raises it, and the last step of a worker that has emitted its signal lowers it,
  whatever else is going on.
\<close>

lemma close_refused_iff_flag:
  "on_delete_event w = (phase w = Saving)
   \<and> step DeleteEvent w = Inr (if closed w \<or> phase w = Saving then w else w\<lparr>closed := True\<rparr>)
   \<and> phase (trySaveDocument file w) = Saving
   \<and> phase (worker_exit i w) =
       (if i < length (threads w) \<and> stage (threads w ! i) = Emitted then Idle else phase w)
   \<and> phase (new_window v) = Idle"
  by (simp add: on_delete_event_def phase_def step_def trySaveDocument_def worker_exit_def
        new_window_def)

subsection \<open>Removing the pages before and after the selected one\<close>

text \<open>
  Right after \<^verbatim>\<open>onSelectedPagesChanged\<close> the remove-previous action is enabled
  exactly when one page is selected and it is not the first, and the remove-next action
  exactly when one page is selected and it is not the last. When the view shows the pages
  of the Document and its selected index is one of its positions, the
  \<^verbatim>\<open>removePageRange\<close> call of either handler, run in that state, has a non-empty
  range of positions below the page count.
\<close>

lemma remove_previous_next_enabled_only_inside:
  assumes "m_document w = Some d" and "children (m_view w) = length (pages d)"
    and "0 \<le> selectedChildIndex (m_view w)"
    and "selectedChildIndex (m_view w) < int (children (m_view w))"
  shows
    "enabled (onSelectedPagesChanged w) RemovePreviousAction =
       (length (selectedChildrenIndexes (m_view w)) = 1 \<and> selectedChildIndex (m_view w) \<noteq> 0)
     \<and> enabled (onSelectedPagesChanged w) RemoveNextAction =
       (length (selectedChildrenIndexes (m_view w)) = 1
        \<and> selectedChildIndex (m_view w) \<noteq> int (children (m_view w)) - 1)
     \<and> (enabled (onSelectedPagesChanged w) RemovePreviousAction \<longrightarrow>
           onRemovePreviousPages (onSelectedPagesChanged w) =
             edit_document (EditRemovePageRange 0 (selectedChildIndex (m_view w) - 1))
               (onSelectedPagesChanged w)
           \<and> 0 \<le> selectedChildIndex (m_view w) - 1
           \<and> selectedChildIndex (m_view w) - 1 < int (length (pages d))
           \<and> range_indices 0 (selectedChildIndex (m_view w) - 1) \<noteq> []
           \<and> set (range_indices 0 (selectedChildIndex (m_view w) - 1)) \<subseteq> {0..<length (pages d)})
     \<and> (enabled (onSelectedPagesChanged w) RemoveNextAction \<longrightarrow>
           onRemoveNextPages (onSelectedPagesChanged w) =
             edit_document
               (EditRemovePageRange (selectedChildIndex (m_view w) + 1) (int (length (pages d)) - 1))
               (onSelectedPagesChanged w)
           \<and> selectedChildIndex (m_view w) + 1 \<le> int (length (pages d)) - 1
           \<and> range_indices (selectedChildIndex (m_view w) + 1) (int (length (pages d)) - 1) \<noteq> []
           \<and> set (range_indices (selectedChildIndex (m_view w) + 1) (int (length (pages d)) - 1))
                \<subseteq> {0..<length (pages d)})"
proof -
  let ?w = "onSelectedPagesChanged w"
  let ?i = "selectedChildIndex (m_view w)"
  have prev: "enabled ?w RemovePreviousAction =
     (length (selectedChildrenIndexes (m_view w)) = 1 \<and> ?i \<noteq> 0)"
    by (simp add: onSelectedPagesChanged_enabled selection_dependent_def selection_actions_def)
  have nxt: "enabled ?w RemoveNextAction =
     (length (selectedChildrenIndexes (m_view w)) = 1 \<and> ?i \<noteq> int (children (m_view w)) - 1)"
    by (simp add: onSelectedPagesChanged_enabled selection_dependent_def selection_actions_def)
  have calls: "onRemovePreviousPages ?w = edit_document (EditRemovePageRange 0 (?i - 1)) ?w"
    by (simp add: onRemovePreviousPages_def)
  have calln: "onRemoveNextPages ?w =
       edit_document (EditRemovePageRange (?i + 1) (int (length (pages d)) - 1)) ?w"
    using assms(1) by (simp add: onRemoveNextPages_def)
  have rng: "s \<le> e \<Longrightarrow> 0 \<le> s \<Longrightarrow> e < int n \<Longrightarrow>
       range_indices s e \<noteq> [] \<and> set (range_indices s e) \<subseteq> {0..<n}" for s e n
    by (auto simp: range_indices_def)
  show ?thesis
    using prev nxt calls calln assms(2,3,4)
      rng [of 0 "?i - 1" "length (pages d)"]
      rng [of "?i + 1" "int (length (pages d)) - 1" "length (pages d)"]
    by auto
qed

section \<open>Properties of the settings manager\<close>

text \<open>
  Claim C9. \<^verbatim>\<open>loadWindowState\<close> always returns a window state: the stored
  width, height and maximised flag when the key file holds all three and each text is
  accepted, and otherwise, whenever an entry is absent or rejected, the default state
  of 800 by 600, not maximised. A settings file that could not be read gives the default.
\<close>

theorem loadWindowState_stored_or_default:
  "loadWindowState get_integer get_boolean kf =
     (case (Option.bind (kf (groupName, keys_width)) get_integer,
            Option.bind (kf (groupName, keys_height)) get_integer,
            Option.bind (kf (groupName, keys_isMaximized)) get_boolean) of
        (Some w, Some h, Some m) \<Rightarrow> \<lparr>width = w, height = h, isMaximized = m\<rparr>
      | _ \<Rightarrow> \<lparr>width = 800, height = 600, isMaximized = False\<rparr>)
   \<and> loadWindowState get_integer get_boolean (loadConfigFile None)
       = \<lparr>width = 800, height = 600, isMaximized = False\<rparr>"
  by (auto simp: loadWindowState_def get_value_def defaultWindowState_def loadConfigFile_def
           split: option.splits)

section \<open>Opening and saving\<close>

subsection \<open>A failed open\<close>

lemmas example_defs =
  page_of_def two_pages_def nothing_selected_def first_selected_def second_selected_def
  open_two_pages_def save_as_def activate_def new_document_def empty_history_def

lemmas window_defs =
  after_def step_def new_window_def addActions_def onOpenAction_def onSaveAction_def
  tryOpenDocument_def setDocument_def trySaveDocument_def worker_save_def worker_exit_def
  dispatch_def on_signal_def enableEditingActions_def onCommandExecuted_def
  onSelectedPagesChanged_def disableEditingActions_def edit_document_def history_document_def
  onUndoAction_def onRedoAction_def onRemoveSelectedPages_def onRemoveUnselectedPages_def
  onRemovePreviousPages_def onRemoveNextPages_def onRotatePagesRight_def onRotatePagesLeft_def
  on_delete_event_def emits_commandExecuted_def

lemmas engine_defs =
  removePages_def removePageRange_def rotatePagesRight_def rotatePagesLeft_def execute_on_def
  execute_def undoCommand_def redoCommand_def undo_def redo_def canUndo_def canRedo_def
  canUndo_history_def canRedo_history_def removed_entries_def survivors_def range_indices_def
  rotate_indices_def reinsert_def insert_at_def PdfSaver_save_def

text \<open>
  Claim C6, evaluated at a failing input. A window has opened the two-page Document and
  removed its first page, so that the undo action is enabled and the Document can undo.
  Opening a file whose Document cannot be constructed leaves the Document and its history
  as they were, but the undo action is now disabled.
\<close>

theorem failed_open_disables_undo:
  "after [open_two_pages, SelectionChanged first_selected, activate RemoveSelectedAction]
     (new_window nothing_selected)
     (\<lambda>w. (enabled w UndoAction, map_option canUndo (m_document w), map_option pages (m_document w)))
     = Some (True, Some True, Some [page_of 1])
   \<and> after [open_two_pages, SelectionChanged first_selected, activate RemoveSelectedAction,
            Activate OpenAction (Some ''bad.pdf'') (Inl OpenError)]
     (new_window nothing_selected)
     (\<lambda>w. (enabled w UndoAction, map_option canUndo (m_document w), map_option pages (m_document w)))
     = Some (False, Some True, Some [page_of 1])"
  by (simp add: example_defs window_defs engine_defs Let_def)


subsection \<open>One save from request to delivery\<close>

lemma trySaveDocument_fields [simp]:
  "m_document (trySaveDocument file w) = m_document w"
  "m_isSavingDocument (trySaveDocument file w) = True"
  "m_view (trySaveDocument file w) = m_view w"
  "m_savingRevealer (trySaveDocument file w) = RevealSaving"
  "threads (trySaveDocument file w) = threads w @ [\<lparr>destination = file, stage = Started\<rparr>]"
  "pending (trySaveDocument file w) = pending w"
  "files (trySaveDocument file w) = files w"
  "logged (trySaveDocument file w) = logged w"
  "error_dialogs (trySaveDocument file w) = error_dialogs w"
  "closed (trySaveDocument file w) = closed w"
  by (simp_all add: trySaveDocument_def)

lemma trySaveDocument_enabled:
  "enabled (trySaveDocument file w) = (\<lambda>a. \<not> editing_action a \<and> enabled w a)"
  by (rule ext) (simp add: trySaveDocument_def disableEditingActions_enabled)

lemma worker_save_new:
  assumes "m_document w = Some d"
  shows "worker_save (length (threads w)) outcome (trySaveDocument file w) =
     Inr ((trySaveDocument file w)
        \<lparr>threads := threads w @ [\<lparr>destination = file, stage = Emitted\<rparr>],
         files := (case outcome of
                     SaveReturns \<Rightarrow> files w @ [(file, PdfSaver_save d)]
                   | SaveThrows \<Rightarrow> files w),
         logged := (case outcome of
                     SaveReturns \<Rightarrow> logged w
                   | SaveThrows \<Rightarrow> logged w @ [''Saving the document failed'',
                                                  ''The destination file was: '' @ file]),
         pending := pending w @ [case outcome of SaveReturns \<Rightarrow> Saved | SaveThrows \<Rightarrow> SavingFailed]\<rparr>)"
  using assms by (cases outcome) (simp_all add: worker_save_def Let_def)

text \<open>
  A save started on an open window with a Document, when nothing else happens in between.
  The first step of its worker emits exactly one signal, the saved signal when the save
  returns and the failure signal when it throws, and touches neither the actions nor the
  revealer nor the dialogs; repeating that step does nothing. The main loop then delivers
  the signal to its handler, which empties the queue, and a second delivery does nothing.
\<close>

lemma started_save_emits_one_signal:
  assumes "m_document w = Some d" and "closed w = False" and "pending w = []"
  shows
    "after [WorkerSaves (length (threads w)) outcome] (trySaveDocument file w)
       (\<lambda>w'. (pending w', enabled w', m_savingRevealer w', error_dialogs w'))
       = Some ([case outcome of SaveReturns \<Rightarrow> Saved | SaveThrows \<Rightarrow> SavingFailed],
               enabled (trySaveDocument file w), RevealSaving, error_dialogs w)
     \<and> run [WorkerSaves (length (threads w)) outcome, WorkerSaves (length (threads w)) outcome']
          (trySaveDocument file w)
       = run [WorkerSaves (length (threads w)) outcome] (trySaveDocument file w)
     \<and> after [WorkerSaves (length (threads w)) outcome, Dispatch] (trySaveDocument file w)
         (\<lambda>w'. (pending w', m_savingRevealer w', error_dialogs w'))
       = Some ([],
               (case outcome of SaveReturns \<Rightarrow> RevealSaved | SaveThrows \<Rightarrow> Hidden),
               (case outcome of
                  SaveReturns \<Rightarrow> error_dialogs w
                | SaveThrows \<Rightarrow> error_dialogs w @ [''The current document could not be saved'']))
     \<and> run [WorkerSaves (length (threads w)) outcome, Dispatch, Dispatch] (trySaveDocument file w)
       = run [WorkerSaves (length (threads w)) outcome, Dispatch] (trySaveDocument file w)
     \<and> step (Activate SaveAction (Some file) constructed) w
       = Inr (if enabled w SaveAction then trySaveDocument file w else w)"
proof -
  let ?i = "length (threads w)"
  let ?w1 = "trySaveDocument file w"
  note ws = worker_save_new [OF assms(1)]
  have a: "after [WorkerSaves ?i outcome] ?w1
       (\<lambda>w'. (pending w', enabled w', m_savingRevealer w', error_dialogs w'))
       = Some ([case outcome of SaveReturns \<Rightarrow> Saved | SaveThrows \<Rightarrow> SavingFailed],
               enabled ?w1, RevealSaving, error_dialogs w)"
    using assms by (simp add: after_def step_def ws)
  have b: "run [WorkerSaves ?i outcome, WorkerSaves ?i outcome'] ?w1 = run [WorkerSaves ?i outcome] ?w1"
    using assms by (simp add: step_def ws) (simp add: worker_save_def)
  have c: "after [WorkerSaves ?i outcome, Dispatch] ?w1
         (\<lambda>w'. (pending w', m_savingRevealer w', error_dialogs w'))
       = Some ([],
               (case outcome of SaveReturns \<Rightarrow> RevealSaved | SaveThrows \<Rightarrow> Hidden),
               (case outcome of
                  SaveReturns \<Rightarrow> error_dialogs w
                | SaveThrows \<Rightarrow> error_dialogs w @ [''The current document could not be saved'']))"
    using assms
    by (cases outcome)
       (simp_all add: after_def step_def ws dispatch_def on_signal_def enableEditingActions_Some)
  have d: "run [WorkerSaves ?i outcome, Dispatch, Dispatch] ?w1 = run [WorkerSaves ?i outcome, Dispatch] ?w1"
    using assms
    by (cases outcome)
       (simp_all add: step_def ws dispatch_def on_signal_def enableEditingActions_Some)
  have e: "step (Activate SaveAction (Some file) constructed) w
       = Inr (if enabled w SaveAction then trySaveDocument file w else w)"
    using assms by (simp add: step_def onSaveAction_def)
  from a b c d e show ?thesis by blast
qed

lemma on_signal_restores:
  assumes "settled w" and "m_document w0 = m_document w" and "m_view w0 = m_view w"
    and "enabled w0 = (\<lambda>a. \<not> editing_action a \<and> enabled w a)"
  shows "\<exists>w'. on_signal s w0 = Inr w' \<and> enabled w' = enabled w
            \<and> m_isSavingDocument w' = m_isSavingDocument w0
            \<and> threads w' = threads w0 \<and> pending w' = pending w0"
proof -
  from assms(1) obtain d where d: "m_document w = Some d"
    by (auto simp: settled_def split: option.splits)
  have restore: "enabled w' = enabled w"
    if "enableEditingActions w1 = Inr w'" and "m_document w1 = Some d"
      and "m_view w1 = m_view w" and "enabled w1 = enabled w0" for w1 w'
  proof
    fix a
    show "enabled w' a = enabled w a"
      using enableEditingActions_enabled [OF that(2) that(1), of a]
        settled_enabled [OF assms(1) d, of a] that(3,4) assms(4)
      by (cases a) (simp_all add: editing_action_def selection_dependent_def)
  qed
  show ?thesis
  proof (cases s)
    case Saved
    let ?w1 = "w0\<lparr>m_savingRevealer := RevealSaved\<rparr>"
    have m: "m_document ?w1 = Some d" using assms(2) d by simp
    obtain w' where w': "enableEditingActions ?w1 = Inr w'"
      by (simp add: enableEditingActions_Some [OF m])
    have "enabled w' = enabled w"
      by (rule restore [OF w' m]) (simp_all add: assms(3))
    moreover have "m_isSavingDocument w' = m_isSavingDocument w0 \<and> threads w' = threads w0
        \<and> pending w' = pending w0"
      using w' by (simp add: enableEditingActions_Some [OF m]) auto
    ultimately show ?thesis using Saved w' by (simp add: on_signal_def)
  next
    case SavingFailed
    let ?w1 = "w0\<lparr>m_savingRevealer := Hidden\<rparr>"
    have m: "m_document ?w1 = Some d" using assms(2) d by simp
    obtain w' where w': "enableEditingActions ?w1 = Inr w'"
      by (simp add: enableEditingActions_Some [OF m])
    have "enabled w' = enabled w"
      by (rule restore [OF w' m]) (simp_all add: assms(3))
    moreover have "m_isSavingDocument w' = m_isSavingDocument w0 \<and> threads w' = threads w0
        \<and> pending w' = pending w0"
      using w' by (simp add: enableEditingActions_Some [OF m]) auto
    ultimately show ?thesis using SavingFailed w' by (simp add: on_signal_def)
  qed
qed

text \<open>
  On an open window whose actions are what the selection and the history dictate,
  \<^verbatim>\<open>trySaveDocument\<close> raises the flag and disables every editing action. Once the
  worker has emitted its signal and ended and the main loop has delivered the signal, in
  either order, the flag is low and every action is enabled as it was before the save.
\<close>

lemma save_phase_cycle:
  assumes "settled w" and "closed w = False" and "pending w = []"
  shows
    "phase (trySaveDocument file w) = Saving
     \<and> enabled (trySaveDocument file w) = (\<lambda>a. \<not> editing_action a \<and> enabled w a)
     \<and> after [WorkerSaves (length (threads w)) outcome, WorkerExits (length (threads w)), Dispatch]
         (trySaveDocument file w) (\<lambda>w'. (phase w', enabled w'))
       = Some (Idle, enabled w)
     \<and> after [WorkerSaves (length (threads w)) outcome, Dispatch, WorkerExits (length (threads w))]
         (trySaveDocument file w) (\<lambda>w'. (phase w', enabled w'))
       = Some (Idle, enabled w)"
proof -
  let ?i = "length (threads w)"
  let ?w1 = "trySaveDocument file w"
  let ?s = "case outcome of SaveReturns \<Rightarrow> Saved | SaveThrows \<Rightarrow> SavingFailed"
  from assms(1) obtain d where d: "m_document w = Some d"
    by (auto simp: settled_def split: option.splits)
  note ws = worker_save_new [OF d]
  obtain w2 where w2: "worker_save ?i outcome ?w1 = Inr w2"
    and w2f: "m_document w2 = m_document w" "m_view w2 = m_view w" "enabled w2 = enabled ?w1"
      "pending w2 = [?s]" "closed w2 = False" "m_isSavingDocument w2 = True"
      "threads w2 = threads w @ [\<lparr>destination = file, stage = Emitted\<rparr>]"
    using assms(2,3) by (simp add: ws)
  have c1: "after [WorkerSaves ?i outcome, WorkerExits ?i, Dispatch] ?w1 (\<lambda>w'. (phase w', enabled w'))
       = Some (Idle, enabled w)"
  proof -
    let ?w3 = "worker_exit ?i w2"
    have w3f: "m_document ?w3 = m_document w" "m_view ?w3 = m_view w" "enabled ?w3 = enabled ?w1"
      "pending ?w3 = [?s]" "closed ?w3 = False" "m_isSavingDocument ?w3 = False"
      using w2f by (simp_all add: worker_exit_def)
    obtain w' where w': "on_signal ?s (?w3\<lparr>pending := []\<rparr>) = Inr w'"
      and e: "enabled w' = enabled w" and p: "m_isSavingDocument w' = False"
      using on_signal_restores [OF assms(1), of "?w3\<lparr>pending := []\<rparr>" ?s] w3f
      by (auto simp: trySaveDocument_enabled)
    show ?thesis
      using assms(2) w2 w2f(5) w3f w' e p
      by (simp add: after_def step_def dispatch_def phase_def)
  qed
  have c2: "after [WorkerSaves ?i outcome, Dispatch, WorkerExits ?i] ?w1 (\<lambda>w'. (phase w', enabled w'))
       = Some (Idle, enabled w)"
  proof -
    obtain w' where w': "on_signal ?s (w2\<lparr>pending := []\<rparr>) = Inr w'"
      and e: "enabled w' = enabled w" and t: "threads w' = threads w2"
      using on_signal_restores [OF assms(1), of "w2\<lparr>pending := []\<rparr>" ?s] w2f
      by (auto simp: trySaveDocument_enabled)
    have c: "closed w' = False"
      using w' w2f(5) d w2f(1)
      by (cases outcome) (auto simp: on_signal_def enableEditingActions_Some)
    show ?thesis
      using assms(2) w2 w2f w' e t c
      by (simp add: after_def step_def dispatch_def phase_def worker_exit_def)
  qed
  show ?thesis
    using c1 c2 by (simp add: phase_def trySaveDocument_enabled)
qed


subsection \<open>What a save writes\<close>

lemma run_append:
  "run (es @ fs) w = (case run es w of Inl f \<Rightarrow> Inl f | Inr w' \<Rightarrow> run fs w')"
  by (induction es arbitrary: w) (simp_all split: sum.splits)

lemma user_request_ignored:
  assumes "user_request e" and "m_isSavingDocument w"
    and "\<And>a. editing_action a \<Longrightarrow> enabled w a = False"
  shows "step e w = Inr w"
proof (cases e)
  case (Activate a chosen constructed)
  show ?thesis
  proof (cases "editing_action a")
    case True
    with assms(3) Activate show ?thesis by (simp add: step_def)
  next
    case False
    then have "a = ShortcutsAction \<or> a = AboutAction" by (simp add: editing_action_def)
    with Activate show ?thesis by (auto simp: step_def)
  qed
next
  case DeleteEvent
  with assms(2) show ?thesis by (simp add: step_def on_delete_event_def)
qed (use assms(1) in simp_all)

lemma user_requests_ignored:
  assumes "list_all user_request es" and "m_isSavingDocument w"
    and "\<And>a. editing_action a \<Longrightarrow> enabled w a = False"
  shows "run es w = Inr w"
  using assms(1)
proof (induction es)
  case Nil
  show ?case by simp
next
  case (Cons e es)
  then have "step e w = Inr w"
    using user_request_ignored [OF _ assms(2,3)] by simp
  with Cons show ?case by simp
qed

text \<open>
  A save writes the Document that the window holds when its worker runs. While the
  editing actions stay disabled, action activations and close requests between the save
  request and the worker leave the Document as it was at the request.
\<close>

lemma save_writes_document_held_by_worker:
  assumes "m_document w = Some d" and "closed w = False" and "list_all user_request es"
  shows
    "after (es @ [WorkerSaves (length (threads w)) SaveReturns]) (trySaveDocument file w) files
       = Some (files w @ [(file, PdfSaver_save d)])
     \<and> after [WorkerSaves (length (threads w)) SaveReturns]
         ((trySaveDocument file w)\<lparr>m_document := Some d'\<rparr>) files
       = Some (files w @ [(file, PdfSaver_save d')])"
proof -
  let ?w1 = "trySaveDocument file w"
  have "run es ?w1 = Inr ?w1"
    by (rule user_requests_ignored [OF assms(3)]) (simp_all add: trySaveDocument_enabled)
  then have a: "after (es @ [WorkerSaves (length (threads w)) SaveReturns]) ?w1 files
       = Some (files w @ [(file, PdfSaver_save d)])"
    using assms(1,2) by (simp add: after_def run_append step_def worker_save_new)
  have b: "after [WorkerSaves (length (threads w)) SaveReturns] (?w1\<lparr>m_document := Some d'\<rparr>) files
       = Some (files w @ [(file, PdfSaver_save d')])"
    using assms(2) by (simp add: after_def step_def worker_save_def Let_def)
  from a b show ?thesis by simp
qed

text \<open>
  Claim C1, evaluated at a failing input. The two-page Document is open and a save is
  requested; at that moment the Document has two pages, and a worker that runs now writes
  both. Instead the view reports that the first page is selected:
  \<^verbatim>\<open>onSelectedPagesChanged\<close> enables the remove-selected action again, although
  \<^verbatim>\<open>trySaveDocument\<close> has just disabled it for the time of the save. The page is
  removed, and the worker of the save in flight writes a single page.
\<close>

theorem edit_after_save_request_changes_written_file:
  "after [open_two_pages, save_as ''out.pdf''] (new_window nothing_selected)
     (\<lambda>w. map_option PdfSaver_save (m_document w)) = Some (Some [(0, Deg0), (1, Deg0)])
   \<and> after [open_two_pages, save_as ''out.pdf'', WorkerSaves 0 SaveReturns]
       (new_window nothing_selected) files = Some [(''out.pdf'', [(0, Deg0), (1, Deg0)])]
   \<and> after [open_two_pages, save_as ''out.pdf'', SelectionChanged first_selected,
            activate RemoveSelectedAction, WorkerSaves 0 SaveReturns]
       (new_window nothing_selected) files = Some [(''out.pdf'', [(1, Deg0)])]"
  by (simp add: example_defs window_defs engine_defs Let_def)

subsection \<open>A second save request\<close>

text \<open>
  Claim C3 as stated fails. \<^verbatim>\<open>trySaveDocument\<close> has no guard and no error to
  return: called on a window whose save is in flight, it starts a second worker, and both
  saves run and write their files.
\<close>

theorem second_trySaveDocument_runs_second_save:
  "after [open_two_pages, save_as ''a.pdf''] (new_window nothing_selected)
     (\<lambda>w. (in_flight w, in_flight (trySaveDocument ''b.pdf'' w),
           after [WorkerSaves 0 SaveReturns, WorkerSaves 1 SaveReturns]
             (trySaveDocument ''b.pdf'' w) files))
     = Some (1, 2, Some [(''a.pdf'', [(0, Deg0), (1, Deg0)]), (''b.pdf'', [(0, Deg0), (1, Deg0)])])"
  by (simp add: example_defs window_defs engine_defs in_flight_def Let_def)


lemma started_after_emit:
  "i < length ts \<Longrightarrow> stage (ts ! i) = Started \<Longrightarrow>
   Suc (length (filter (\<lambda>t. stage t = Started) (ts[i := (ts ! i)\<lparr>stage := Emitted\<rparr>])))
     = length (filter (\<lambda>t. stage t = Started) ts)"
proof (induction ts arbitrary: i)
  case Nil
  then show ?case by simp
next
  case (Cons t ts)
  then show ?case by (cases i) auto
qed

lemma started_after_finish:
  "i < length ts \<Longrightarrow> stage (ts ! i) = Emitted \<Longrightarrow>
   length (filter (\<lambda>t. stage t = Started) (ts[i := (ts ! i)\<lparr>stage := Finished\<rparr>]))
     = length (filter (\<lambda>t. stage t = Started) ts)"
proof (induction ts arbitrary: i)
  case Nil
  then show ?case by simp
next
  case (Cons t ts)
  then show ?case by (cases i) auto
qed

lemma single_save_cong:
  "threads w' = threads w \<Longrightarrow> pending w' = pending w \<Longrightarrow>
   enabled w' SaveAction = enabled w SaveAction \<Longrightarrow>
   enabled w' OpenAction = enabled w OpenAction \<Longrightarrow> single_save w' = single_save w"
  by (simp add: single_save_def in_flight_def)

lemma onCommandExecuted_single_save:
  "onCommandExecuted w = Inr w' \<Longrightarrow> single_save w' = single_save w"
  by (drule onCommandExecuted_Inr) (auto simp: single_save_def in_flight_def)

lemma edit_document_single_save:
  assumes "edit_document e w = Inr w'"
  shows "single_save w' = single_save w"
proof -
  from assms obtain d where d: "m_document w = Some d"
    by (auto simp: edit_document_def split: option.splits)
  let ?w1 = "w\<lparr>m_document := Some (apply_edit e d)\<rparr>"
  have s1: "single_save ?w1 = single_save w"
    by (rule single_save_cong) simp_all
  show ?thesis
  proof (cases "emits_commandExecuted e")
    case True
    with assms d have "onCommandExecuted ?w1 = Inr w'"
      by (simp add: edit_document_def)
    from onCommandExecuted_single_save [OF this] s1 show ?thesis by simp
  next
    case False
    with assms d have "w' = ?w1" by (simp add: edit_document_def)
    with s1 show ?thesis by simp
  qed
qed

lemma history_document_single_save:
  assumes "history_document f w = Inr w'"
  shows "single_save w' = single_save w"
proof -
  from assms obtain d d' where d: "m_document w = Some d" "f d = Inr d'"
    by (auto simp: history_document_def split: option.splits sum.splits)
  let ?w1 = "w\<lparr>m_document := Some d'\<rparr>"
  have s1: "single_save ?w1 = single_save w"
    by (rule single_save_cong) simp_all
  from assms d have "onCommandExecuted ?w1 = Inr w'"
    by (simp add: history_document_def)
  from onCommandExecuted_single_save [OF this] s1 show ?thesis by simp
qed

lemma trySaveDocument_single_save:
  assumes "single_save w" and "enabled w SaveAction"
  shows "single_save (trySaveDocument file w)"
proof -
  from assms have "in_flight w + length (pending w) = 0"
    by (auto simp: single_save_def)
  then show ?thesis
    by (simp add: single_save_def in_flight_def trySaveDocument_enabled editing_action_def)
qed

lemma tryOpenDocument_single_save:
  assumes "single_save w" and "enabled w OpenAction"
  shows "single_save (tryOpenDocument file constructed w)"
proof -
  from assms have "in_flight w + length (pending w) = 0"
    by (auto simp: single_save_def)
  then show ?thesis
    by (cases constructed)
       (simp_all add: single_save_def in_flight_def tryOpenDocument_def setDocument_def Let_def)
qed

lemma handler_single_save:
  assumes "single_save w" and "enabled w a" and "handler a chosen constructed w = Inr w'"
  shows "single_save w'"
proof (cases a)
  case OpenAction
  with assms show ?thesis
    by (cases chosen) (auto simp: onOpenAction_def tryOpenDocument_single_save)
next
  case SaveAction
  with assms show ?thesis
    by (cases chosen) (auto simp: onSaveAction_def trySaveDocument_single_save)
next
  case UndoAction
  with assms history_document_single_save [of undoCommand w w'] show ?thesis
    by (simp add: onUndoAction_def)
next
  case RedoAction
  with assms history_document_single_save [of redoCommand w w'] show ?thesis
    by (simp add: onRedoAction_def)
next
  case RemoveSelectedAction
  with assms edit_document_single_save [of _ w w'] show ?thesis
    by (simp add: onRemoveSelectedPages_def)
next
  case RemoveUnselectedAction
  with assms edit_document_single_save [of _ w w'] show ?thesis
    by (simp add: onRemoveUnselectedPages_def)
next
  case RemovePreviousAction
  with assms edit_document_single_save [of _ w w'] show ?thesis
    by (simp add: onRemovePreviousPages_def)
next
  case RemoveNextAction
  with assms edit_document_single_save [of _ w w'] show ?thesis
    by (auto simp: onRemoveNextPages_def split: option.splits)
next
  case RotateRightAction
  with assms edit_document_single_save [of _ w w'] show ?thesis
    by (simp add: onRotatePagesRight_def)
next
  case RotateLeftAction
  with assms edit_document_single_save [of _ w w'] show ?thesis
    by (simp add: onRotatePagesLeft_def)
next
  case CancelSelectionAction
  with assms show ?thesis by simp
next
  case ShortcutsAction
  with assms show ?thesis by simp
next
  case AboutAction
  with assms show ?thesis by simp
qed

lemma worker_save_single_save:
  assumes "single_save w" and "worker_save i outcome w = Inr w'"
  shows "single_save w'"
proof (cases "i < length (threads w) \<and> stage (threads w ! i) = Started")
  case False
  with assms show ?thesis by (auto simp: worker_save_def)
next
  case True
  from True assms(2) obtain d where d: "m_document w = Some d"
    by (auto simp: worker_save_def split: option.splits)
  from True have dec: "Suc (in_flight (w\<lparr>threads := (threads w)[i := (threads w ! i)\<lparr>stage := Emitted\<rparr>]\<rparr>))
      = in_flight w"
    by (simp add: in_flight_def started_after_emit)
  have f: "in_flight w' = in_flight (w\<lparr>threads := (threads w)[i := (threads w ! i)\<lparr>stage := Emitted\<rparr>]\<rparr>)"
    "length (pending w') = Suc (length (pending w))" "enabled w' = enabled w"
    using True assms(2) d
    by (cases outcome; simp add: worker_save_def Let_def in_flight_def; fastforce)+
  from dec have "0 < in_flight w" by arith
  with assms(1) have one: "in_flight w + length (pending w) = 1"
    and off: "enabled w SaveAction = False" "enabled w OpenAction = False"
    unfolding single_save_def by auto
  from one dec f(1,2) have "in_flight w' + length (pending w') = 1" by arith
  with off f(3) show ?thesis
    unfolding single_save_def by simp
qed

lemma in_flight_worker_exit: "in_flight (worker_exit i w) = in_flight w"
  by (simp add: worker_exit_def in_flight_def started_after_finish)

lemma worker_exit_single_save: "single_save (worker_exit i w) = single_save w"
  unfolding single_save_def in_flight_worker_exit by (simp add: worker_exit_def)

lemma on_signal_frame:
  assumes "on_signal s w = Inr w'"
  shows "threads w' = threads w \<and> pending w' = pending w"
proof -
  from assms obtain d where d: "m_document w = Some d"
    by (cases s)
       (auto simp: on_signal_def enableEditingActions_def onCommandExecuted_def
             split: option.splits sum.splits)
  from assms d show ?thesis
    by (cases s) (auto simp: on_signal_def enableEditingActions_Some)
qed

lemma dispatch_single_save:
  assumes "single_save w" and "dispatch w = Inr w'"
  shows "single_save w'"
proof (cases "pending w")
  case Nil
  with assms show ?thesis by (simp add: dispatch_def)
next
  case (Cons s rest)
  with assms(2) have "on_signal s (w\<lparr>pending := rest\<rparr>) = Inr w'"
    by (simp add: dispatch_def)
  from on_signal_frame [OF this] have "threads w' = threads w" "pending w' = rest"
    by simp_all
  with assms(1) Cons show ?thesis
    by (auto simp: single_save_def in_flight_def)
qed

lemma step_single_save:
  assumes "single_save w" and "step e w = Inr w'"
  shows "single_save w'"
proof (cases "closed w")
  case True
  with assms show ?thesis by (simp add: step_def)
next
  case False
  with assms(2) have h: "handle e w = Inr w'" by (simp add: step_def)
  show ?thesis
  proof (cases e)
    case (Activate a chosen constructed)
    with h assms(1) handler_single_save [of w a chosen constructed w'] show ?thesis
      by (cases "enabled w a") auto
  next
    case (SelectionChanged v)
    with h have "w' = onSelectedPagesChanged (w\<lparr>m_view := v\<rparr>)" by simp
    then have "single_save w' = single_save w"
      by (simp add: single_save_def in_flight_def onSelectedPagesChanged_enabled
            selection_dependent_def)
    with assms(1) show ?thesis by simp
  next
    case DeleteEvent
    with h have "w' = (if on_delete_event w then w else w\<lparr>closed := True\<rparr>)" by simp
    then have "single_save w' = single_save w"
      by (simp add: single_save_def in_flight_def)
    with assms(1) show ?thesis by simp
  next
    case (WorkerSaves i outcome)
    with h assms(1) worker_save_single_save show ?thesis by simp
  next
    case (WorkerExits i)
    with h assms(1) worker_exit_single_save show ?thesis by auto
  next
    case Dispatch
    with h assms(1) dispatch_single_save show ?thesis by simp
  qed
qed

lemma run_single_save:
  "single_save w \<Longrightarrow> run es w = Inr w' \<Longrightarrow> single_save w'"
proof (induction es arbitrary: w)
  case Nil
  then show ?case by simp
next
  case (Cons e es)
  from Cons.prems(2) obtain w1 where s: "step e w = Inr w1" and r: "run es w1 = Inr w'"
    by (auto split: sum.splits)
  from Cons.IH [OF step_single_save [OF Cons.prems(1) s] r] show ?case .
qed

lemma single_save_new_window: "single_save (new_window v)"
  by (simp add: single_save_def new_window_def in_flight_def)

text \<open>
  Claim C3, amended. In every state that a new window reaches, at most one save is in
  flight, and while one is, the save action is disabled: a save request then changes
  nothing, starts no second worker and reports no error.
\<close>

theorem save_request_ignored_while_in_flight:
  assumes "run es (new_window v) = Inr w"
  shows "in_flight w \<le> 1
     \<and> (0 < in_flight w \<longrightarrow>
          enabled w SaveAction = False
          \<and> step (Activate SaveAction chosen constructed) w = Inr w)"
proof -
  have "single_save w"
    by (rule run_single_save [OF single_save_new_window assms])
  then show ?thesis
    by (auto simp: single_save_def step_def)
qed


section \<open>Runs from a new window\<close>


subsection \<open>The flag and the signal of a save\<close>

text \<open>
  Claim C2, evaluated at failing inputs. A first save has emitted its signal and the main
  loop has delivered it, but the worker has not yet taken its last step. Now nothing is in
  flight and no signal waits, and yet a close request is refused. A second save is
  requested; then the first worker takes its last step and lowers the flag. Now the second
  save is in flight, and yet \<^verbatim>\<open>on_delete_event\<close> answers false and a close request
  closes the window.
\<close>

theorem close_allowed_while_second_save_in_flight:
  "after [open_two_pages, save_as ''a.pdf'', WorkerSaves 0 SaveReturns, Dispatch,
          save_as ''b.pdf'', WorkerExits 0]
     (new_window nothing_selected) (\<lambda>w. (in_flight w, on_delete_event w))
     = Some (1, False)
   \<and> after [open_two_pages, save_as ''a.pdf'', WorkerSaves 0 SaveReturns, Dispatch,
            save_as ''b.pdf'', WorkerExits 0, DeleteEvent]
       (new_window nothing_selected) (\<lambda>w. (in_flight w, closed w))
     = Some (1, True)
   \<and> after [open_two_pages, save_as ''a.pdf'', WorkerSaves 0 SaveReturns, Dispatch]
       (new_window nothing_selected) (\<lambda>w. (in_flight w, pending w, on_delete_event w))
     = Some (0, [], True)
   \<and> after [open_two_pages, save_as ''a.pdf'', WorkerSaves 0 SaveReturns, Dispatch, DeleteEvent]
       (new_window nothing_selected) (\<lambda>w. (in_flight w, pending w, closed w))
     = Some (0, [], False)"
  by (simp add: example_defs window_defs engine_defs in_flight_def Let_def)

text \<open>
  Claim C4, evaluated at a failing input. A save throws; its worker emits the failure
  signal and takes its last step, which lowers the flag. The user closes the window before
  the main loop comes to the signal: the signal still waits, its handler never runs, no
  error dialog is shown. With the close request left out, the same run delivers the signal
  and shows the dialog.
\<close>

theorem failure_signal_lost_when_window_closes:
  "after [open_two_pages, save_as ''out.pdf'', WorkerSaves 0 SaveThrows, WorkerExits 0,
          DeleteEvent, Dispatch]
     (new_window nothing_selected)
     (\<lambda>w. (pending w, error_dialogs w, closed w, enabled w SaveAction, m_savingRevealer w))
     = Some ([SavingFailed], [], True, False, RevealSaving)
   \<and> after [open_two_pages, save_as ''out.pdf'', WorkerSaves 0 SaveThrows, WorkerExits 0,
            Dispatch]
       (new_window nothing_selected)
       (\<lambda>w. (pending w, error_dialogs w, closed w, enabled w SaveAction, m_savingRevealer w))
     = Some ([], [''The current document could not be saved''], False, True, Hidden)"
  by (simp add: example_defs window_defs engine_defs Let_def)

text \<open>
  Claim C5, evaluated at a failing input. A save has emitted its signal, whether it
  returned or threw, and the main loop has delivered it: the save and open actions are
  enabled again, but the phase is still saving, because only the last step of the worker
  lowers the flag. A save requested now is put back to the idle phase by that last step
  while it is in flight.
\<close>

theorem phase_still_saving_after_signal:
  "after [open_two_pages, save_as ''a.pdf'', WorkerSaves 0 SaveReturns, Dispatch]
     (new_window nothing_selected)
     (\<lambda>w. (phase w, pending w, enabled w SaveAction, enabled w OpenAction))
     = Some (Saving, [], True, True)
   \<and> after [open_two_pages, save_as ''a.pdf'', WorkerSaves 0 SaveThrows, Dispatch]
       (new_window nothing_selected)
       (\<lambda>w. (phase w, pending w, enabled w SaveAction, enabled w OpenAction))
     = Some (Saving, [], True, True)
   \<and> after [open_two_pages, save_as ''a.pdf'', WorkerSaves 0 SaveReturns, Dispatch,
            save_as ''b.pdf'', WorkerExits 0]
       (new_window nothing_selected) (\<lambda>w. (phase w, in_flight w))
     = Some (Idle, 1)"
  by (simp add: example_defs window_defs engine_defs in_flight_def phase_def Let_def)

subsection \<open>The range actions follow the view\<close>



















section \<open>Concrete runs\<close>

lemmas example_window_defs =
  editing_two_pages_def saving_two_pages_def three_pages_def middle_selected_def
  editing_three_pages_def

lemma editing_two_pages_fields:
  "m_document editing_two_pages = Some two_pages"
  "closed editing_two_pages = False"
  "pending editing_two_pages = []"
  "threads editing_two_pages = []"
  "files editing_two_pages = []"
  "error_dialogs editing_two_pages = []"
  "m_view editing_two_pages = nothing_selected"
  "m_isSavingDocument editing_two_pages = False"
  by (simp_all add: editing_two_pages_def tryOpenDocument_def setDocument_def new_window_def)

lemma editing_two_pages_enabled:
  "enabled editing_two_pages a = (a \<in> set [OpenAction, SaveAction, ShortcutsAction, AboutAction])"
  by (cases a)
     (simp_all add: editing_two_pages_def tryOpenDocument_def setDocument_def new_window_def
        addActions_def)

lemma settled_editing_two_pages: "settled editing_two_pages"
  by (simp add: settled_def editing_two_pages_fields editing_two_pages_enabled
        selection_actions_def nothing_selected_def two_pages_def new_document_def
        empty_history_def canUndo_def canRedo_def canUndo_history_def canRedo_history_def)

text \<open>
  After opening the two-page Document and requesting a save, one save is in flight and a
  second request leaves the window unchanged.
\<close>

theorem save_request_ignored_while_in_flight_witness:
  "run [open_two_pages, save_as ''a.pdf''] (new_window nothing_selected) = Inr saving_two_pages
   \<and> in_flight saving_two_pages = 1
   \<and> enabled saving_two_pages SaveAction = False
   \<and> step (save_as ''b.pdf'') saving_two_pages = Inr saving_two_pages"
proof -
  have r: "run [open_two_pages, save_as ''a.pdf''] (new_window nothing_selected)
      = Inr saving_two_pages"
    by (simp add: open_two_pages_def save_as_def step_def onOpenAction_def onSaveAction_def
          saving_two_pages_def editing_two_pages_fields editing_two_pages_enabled
          editing_two_pages_def [symmetric])
       (simp add: new_window_def addActions_def)
  have i: "in_flight saving_two_pages = 1"
    by (simp add: in_flight_def saving_two_pages_def editing_two_pages_fields)
  from r i save_request_ignored_while_in_flight
    [OF r, of "Some ''b.pdf''" "Inl OpenError"]
  show ?thesis by (simp add: save_as_def)
qed

lemma editing_three_pages_fields:
  "m_document editing_three_pages = Some three_pages"
  "m_view editing_three_pages = middle_selected"
  by (simp_all add: editing_three_pages_def tryOpenDocument_def setDocument_def new_window_def)

text \<open>
  Five pages: removing positions 1 and 3 leaves the pages 0, 2 and 4; after three more
  edits a single turned page is left, and undoing everything restores all five.
\<close>

theorem undo_all_restores_original_witness:
  "pages (undo_all (apply_edits
       [EditRemovePages [1, 3], EditRotateRight [0], EditRemovePageRange 0 1, EditRotateLeft [0]]
       (new_document (map page_of [0, 1, 2, 3, 4]))))
     = map page_of [0, 1, 2, 3, 4]
   \<and> pages (apply_edits [EditRemovePages [1, 3]] (new_document (map page_of [0, 1, 2, 3, 4])))
     = map page_of [0, 2, 4]
   \<and> pages (apply_edits
       [EditRemovePages [1, 3], EditRotateRight [0], EditRemovePageRange 0 1, EditRotateLeft [0]]
       (new_document (map page_of [0, 1, 2, 3, 4])))
     = [\<lparr>source_index = 4, rotation = Deg270, removed = False\<rparr>]"
proof -
  have a: "pages (undo_all (apply_edits
       [EditRemovePages [1, 3], EditRotateRight [0], EditRemovePageRange 0 1, EditRotateLeft [0]]
       (new_document (map page_of [0, 1, 2, 3, 4]))))
     = map page_of [0, 1, 2, 3, 4]"
    using undo_all_restores_original
      [of "[EditRemovePages [1, 3], EditRotateRight [0], EditRemovePageRange 0 1, EditRotateLeft [0]]"
          "map page_of [0, 1, 2, 3, 4]"]
    by (rule conjunct1)
  have b: "pages (apply_edits [EditRemovePages [1, 3]] (new_document (map page_of [0, 1, 2, 3, 4])))
     = map page_of [0, 2, 4]"
    by code_simp
  have c: "pages (apply_edits
       [EditRemovePages [1, 3], EditRotateRight [0], EditRemovePageRange 0 1, EditRotateLeft [0]]
       (new_document (map page_of [0, 1, 2, 3, 4])))
     = [\<lparr>source_index = 4, rotation = Deg270, removed = False\<rparr>]"
    by code_simp
  from a b c show ?thesis by (intro conjI)
qed

text \<open>
  The two-page Document after a rotation and an undo can redo; the next rotation is
  executed as a command and redo is gone, in the Document and on the window's action.
\<close>

theorem execute_discards_redo_witness:
  "map_sum id canRedo (undoCommand (rotatePagesRight [0] two_pages)) = Inr True
   \<and> map_sum id (\<lambda>d. rotatePagesLeft [1] d = execute_on (RotatePagesLeft [1]) d)
        (undoCommand (rotatePagesRight [0] two_pages)) = Inr True
   \<and> map_sum id (\<lambda>d. canRedo (rotatePagesLeft [1] d))
        (undoCommand (rotatePagesRight [0] two_pages)) = Inr False
   \<and> canRedo (execute_on (RotatePagesLeft [1]) two_pages) = False
   \<and> map_sum id (\<lambda>w'. enabled w' RedoAction)
        (onCommandExecuted
          (editing_two_pages\<lparr>m_document := Some (execute_on (RotatePagesLeft [1]) two_pages)\<rparr>))
       = Inr False"
  using execute_discards_redo
    [of "RotatePagesLeft [1]" empty_history "[]" two_pages editing_two_pages]
  by (simp add: engine_defs two_pages_def new_document_def empty_history_def page_of_def)

text \<open>
  A key file with all three entries gives the stored state; with a height that is no
  number, and with no readable settings file, it gives the default.
\<close>

theorem loadWindowState_stored_or_default_witness:
  "loadWindowState example_integer example_boolean example_key_file
     = \<lparr>width = 1024, height = 768, isMaximized = True\<rparr>
   \<and> loadWindowState example_integer example_boolean
       (example_key_file((''window-state'', ''height'') \<mapsto> ''tall''))
     = \<lparr>width = 800, height = 600, isMaximized = False\<rparr>
   \<and> loadWindowState example_integer example_boolean (loadConfigFile None)
     = \<lparr>width = 800, height = 600, isMaximized = False\<rparr>"
  using loadWindowState_stored_or_default [of example_integer example_boolean example_key_file]
    loadWindowState_stored_or_default
      [of example_integer example_boolean
          "example_key_file((''window-state'', ''height'') \<mapsto> ''tall'')"]
  by (simp add: example_key_file_def example_integer_def example_boolean_def groupName_def
        keys_width_def keys_height_def keys_isMaximized_def)

end
